theory Spec2Isabelle
  imports Main "HOL-Library.AList"
begin

section \<open>rehype-mermaid-cli: a shallow embedding of \<^verbatim>\<open>src/index.ts\<close>\<close>

text \<open>
  The plugin walks a hast document, finds the \<^verbatim>\<open>code\<close> elements that carry the class
  \<^verbatim>\<open>language-mermaid\<close>, renders each diagram once per theme through the mermaid CLI (with a
  cache of rendered files in the temporary directory) and replaces the block by a wrapper
  element that holds one container per theme.

  The functions of other packages are parameters of the model and every theorem holds for
  all of them: \<open>md5hex\<close> is \<^verbatim>\<open>createHash("md5").update(s).digest("hex")\<close>, \<open>run\<close> is the
  mermaid CLI, \<open>fromHtml\<close> is the fragment parser (it returns the children of the parsed
  root), \<open>toText\<close> is \<^verbatim>\<open>hast-util-to-text\<close>, and \<open>tmpDir\<close> is \<^verbatim>\<open>os.tmpdir()\<close>.
\<close>

subsection \<open>Types\<close>

text \<open>\<^verbatim>\<open>type Theme = "default" | "base" | "dark" | "forest" | "neutral" | "null"\<close>\<close>

datatype theme = Default | Base | Dark | Forest | Neutral | Null

fun themeName :: "theme \<Rightarrow> string" where
  "themeName Default = ''default''"
| "themeName Base = ''base''"
| "themeName Dark = ''dark''"
| "themeName Forest = ''forest''"
| "themeName Neutral = ''neutral''"
| "themeName Null = ''null''"

record puppeteerConfig =
  headless :: "bool option"
  args :: "string list option"

record RehypeMermaidOptions =
  renderThemes :: "theme list"
  svgClassNames :: "string list option"
  puppeteerConfig :: "puppeteerConfig option"

definition defaultOptions :: RehypeMermaidOptions where
  "defaultOptions = \<lparr>renderThemes = [Default], svgClassNames = None, puppeteerConfig = None\<rparr>"

text \<open>
  \<^verbatim>\<open>{ ...defaultOptions, ..._options }\<close>: the type makes \<^verbatim>\<open>renderThemes\<close> a required field of
  the options object, so a supplied object overrides the default list, also with an empty one.
\<close>

definition resolveOptions :: "RehypeMermaidOptions option \<Rightarrow> RehypeMermaidOptions" where
  "resolveOptions given = (case given of None \<Rightarrow> defaultOptions | Some opts \<Rightarrow> opts)"

subsection \<open>Identity\<close>

definition getDiagramId :: "(string \<Rightarrow> string) \<Rightarrow> string \<Rightarrow> string" where
  "getDiagramId md5hex diagram = (let hash = take 8 (md5hex diagram) in ''mermaid-'' @ hash)"

definition getDiagramIdWithTheme :: "(string \<Rightarrow> string) \<Rightarrow> string \<Rightarrow> theme \<Rightarrow> string" where
  "getDiagramIdWithTheme md5hex diagram theme =
     (let hash = take 8 (md5hex diagram) in ''mermaid-'' @ hash @ ''-'' @ themeName theme)"

subsection \<open>The file system and the external renderer\<close>

text \<open>
  The file system maps a path to the content of the file there. The world also keeps the
  list of the renderer's invocations, so that "the renderer was not invoked" is a fact about
  the state. The renderer is a black box: it may change any file, and it resolves (\<open>None\<close>)
  or rejects with a message. Writing the staged source is taken to succeed.
\<close>

type_synonym path = string

record runOptions =
  backgroundColor :: string
  mermaidConfig_theme :: theme
  svgId :: string
  launch_headless :: bool
  launch_args :: "string list"

record world =
  files :: "path \<Rightarrow> string option"
  invocations :: "(path \<times> path \<times> runOptions) list"

type_synonym renderer =
  "path \<Rightarrow> path \<Rightarrow> runOptions \<Rightarrow> (path \<Rightarrow> string option) \<Rightarrow> string option \<times> (path \<Rightarrow> string option)"

datatype error = RenderError string | ENOENT path | TypeError string

text \<open>The message of an error, as Node prints it for a missing file.\<close>

fun errorMessage :: "error \<Rightarrow> string" where
  "errorMessage (RenderError m) = m"
| "errorMessage (ENOENT p) = ''ENOENT: no such file or directory, open '' @ [CHR 0x27] @ p @ [CHR 0x27]"
| "errorMessage (TypeError m) = m"

text \<open>\<^verbatim>\<open>String.prototype.includes\<close>, to say that a message names something.\<close>

fun startsWith :: "string \<Rightarrow> string \<Rightarrow> bool" where
  "startsWith _ [] = True"
| "startsWith [] (c # cs) = False"
| "startsWith (x # xs) (c # cs) = (x = c \<and> startsWith xs cs)"

fun includesStr :: "string \<Rightarrow> string \<Rightarrow> bool" where
  "includesStr [] s = (s = [])"
| "includesStr (x # xs) s = (startsWith (x # xs) s \<or> includesStr xs s)"

text \<open>\<^verbatim>\<open>path.join\<close> of the temporary directory and a file name without separators.\<close>

definition pathJoin :: "path \<Rightarrow> string \<Rightarrow> path" where
  "pathJoin dir name = dir @ ''/'' @ name"

definition exists :: "world \<Rightarrow> path \<Rightarrow> bool" where
  "exists w p = (files w p \<noteq> None)"

definition readFile :: "world \<Rightarrow> path \<Rightarrow> (error + string) \<times> world" where
  "readFile w p = (case files w p of None \<Rightarrow> (Inl (ENOENT p), w) | Some c \<Rightarrow> (Inr c, w))"

definition writeFile :: "world \<Rightarrow> path \<Rightarrow> string \<Rightarrow> world" where
  "writeFile w p c = w\<lparr>files := (files w)(p \<mapsto> c)\<rparr>"

definition callRun :: "renderer \<Rightarrow> path \<Rightarrow> path \<Rightarrow> runOptions \<Rightarrow> world \<Rightarrow> string option \<times> world" where
  "callRun run inp out opts w =
     (let (r, fs) = run inp out opts (files w)
      in (r, w\<lparr>files := fs, invocations := invocations w @ [(inp, out, opts)]\<rparr>))"

definition inputFile :: "(string \<Rightarrow> string) \<Rightarrow> path \<Rightarrow> string \<Rightarrow> theme \<Rightarrow> path" where
  "inputFile md5hex tmpDir diagram theme =
     pathJoin tmpDir (getDiagramIdWithTheme md5hex diagram theme @ ''.mmd'')"

definition finalOutput :: "(string \<Rightarrow> string) \<Rightarrow> path \<Rightarrow> string \<Rightarrow> theme \<Rightarrow> path" where
  "finalOutput md5hex tmpDir diagram theme =
     pathJoin tmpDir (getDiagramIdWithTheme md5hex diagram theme @ ''.svg'')"

definition runOptionsFor :: "string \<Rightarrow> theme \<Rightarrow> puppeteerConfig option \<Rightarrow> runOptions" where
  "runOptionsFor ident theme pc =
     \<lparr>backgroundColor = ''transparent'', mermaidConfig_theme = theme, svgId = ident,
      launch_headless = (case pc of None \<Rightarrow> True
                         | Some c \<Rightarrow> (case headless c of None \<Rightarrow> True | Some b \<Rightarrow> b)),
      launch_args = (case pc of None \<Rightarrow> []
                     | Some c \<Rightarrow> (case args c of None \<Rightarrow> [] | Some a \<Rightarrow> a))\<rparr>"

definition renderMermaidDiagram ::
  "renderer \<Rightarrow> (string \<Rightarrow> string) \<Rightarrow> path \<Rightarrow> string \<Rightarrow> theme \<Rightarrow> puppeteerConfig option \<Rightarrow> world
     \<Rightarrow> (error + string) \<times> world" where
  "renderMermaidDiagram run md5hex tmpDir diagram theme pc w =
     (let ident = getDiagramIdWithTheme md5hex diagram theme;
          inp = inputFile md5hex tmpDir diagram theme;
          out = finalOutput md5hex tmpDir diagram theme
      in if exists w out then readFile w out
         else (let w1 = writeFile w inp diagram;
                   (r, w2) = callRun run inp out (runOptionsFor ident theme pc) w1
               in case r of
                    Some m \<Rightarrow> (Inl (RenderError m), w2)
                  | None \<Rightarrow> readFile w2 out))"

subsection \<open>The document: hast nodes in a store\<close>

text \<open>
  The plugin changes the document in place and finds a node among its parent's children by
  \<^verbatim>\<open>indexOf\<close>, that is by object identity. So the document lives in a store: a reference is
  an index into the list of cells, children are lists of references, and creating an object
  appends a cell, which makes every new reference fresh. A reference past the end of the
  store reads as \<^verbatim>\<open>undefined\<close>.
\<close>

type_synonym ref = nat

datatype propval = PStr string | PList "string list" | PBool bool | PNum int

type_synonym properties = "(string \<times> propval) list"

datatype node =
    Root "ref list"
  | Element string properties "ref list"
  | Text string
  | Comment string
  | Doctype

type_synonym store = "node list"

definition deref :: "store \<Rightarrow> ref \<Rightarrow> node option" where
  "deref h r = (if r < length h then Some (h ! r) else None)"

text \<open>\<^verbatim>\<open>"children" in node\<close>: roots and elements have children.\<close>

fun childrenOf :: "node \<Rightarrow> ref list option" where
  "childrenOf (Root cs) = Some cs"
| "childrenOf (Element tagName props cs) = Some cs"
| "childrenOf _ = None"

fun setChildren :: "node \<Rightarrow> ref list \<Rightarrow> node" where
  "setChildren (Root _) cs = Root cs"
| "setChildren (Element tagName props _) cs = Element tagName props cs"
| "setChildren n cs = n"

text \<open>\<^verbatim>\<open>Array.prototype.indexOf\<close>: the first index that holds the value, \<open>None\<close> for -1.\<close>

fun indexOf :: "'a list \<Rightarrow> 'a \<Rightarrow> nat option" where
  "indexOf [] x = None"
| "indexOf (y # ys) x = (if y = x then Some 0 else map_option Suc (indexOf ys x))"

text \<open>\<^verbatim>\<open>xs[i]\<close> for a computed index: \<^verbatim>\<open>undefined\<close> when it is negative or past the end.\<close>

definition jsAt :: "'a list \<Rightarrow> int \<Rightarrow> 'a option" where
  "jsAt xs i = (if 0 \<le> i \<and> i < int (length xs) then Some (xs ! nat i) else None)"

text \<open>
  Nodes the plugin builds (and the fragments the parser returns) are values until they are
  put into the document; \<open>alloc\<close> then gives every node of the tree a new cell, children
  before their parent.
\<close>

datatype hast =
    HElement string properties "hast list"
  | HText string
  | HComment string
  | HDoctype

fun alloc :: "hast \<Rightarrow> store \<Rightarrow> ref \<times> store"
  and allocAll :: "hast list \<Rightarrow> store \<Rightarrow> ref list \<times> store" where
  "alloc (HElement tagName props kids) h =
     (case allocAll kids h of (rs, h1) \<Rightarrow> (length h1, h1 @ [Element tagName props rs]))"
| "alloc (HText v) h = (length h, h @ [Text v])"
| "alloc (HComment v) h = (length h, h @ [Comment v])"
| "alloc HDoctype h = (length h, h @ [Doctype])"
| "allocAll [] h = ([], h)"
| "allocAll (t # ts) h =
     (case alloc t h of (r, h1) \<Rightarrow> (case allocAll ts h1 of (rs, h2) \<Rightarrow> (r # rs, h2)))"

subsection \<open>Discovery (\<^verbatim>\<open>rehypeMermaidCLI\<close>, lines 36 to 55)\<close>

text \<open>The test of the visitor, lines 45 to 49.\<close>

definition isMermaidCode :: "node \<Rightarrow> bool" where
  "isMermaidCode n =
     (case n of
        Element tagName props cs \<Rightarrow>
          tagName = ''code'' \<and>
          (case map_of props ''className'' of
             Some (PList className) \<Rightarrow> ''language-mermaid'' \<in> set className
           | _ \<Rightarrow> False)
      | _ \<Rightarrow> False)"

record diagramEntry =
  dDiagram :: string
  dId :: string
  dNode :: ref
  dAncestors :: "ref list"

text \<open>
  The visitor, called on an element with the chain of its ancestors: a selected node gets
  its id property and is pushed on the list of diagrams.
\<close>

definition visitor ::
  "(string \<Rightarrow> string) \<Rightarrow> (store \<Rightarrow> ref \<Rightarrow> string) \<Rightarrow> ref \<Rightarrow> ref list
     \<Rightarrow> store \<times> diagramEntry list \<Rightarrow> store \<times> diagramEntry list" where
  "visitor md5hex toText r ancestors s =
     (case s of (h, diagrams) \<Rightarrow>
        (case deref h r of
           Some (Element tagName props cs) \<Rightarrow>
             if isMermaidCode (Element tagName props cs) then
               (let diagramText = toText h r;
                    ident = getDiagramId md5hex diagramText
                in (h[r := Element tagName (AList.update ''id'' (PStr ident) props) cs],
                    diagrams @ [\<lparr>dDiagram = diagramText, dId = ident, dNode = r, dAncestors = ancestors\<rparr>]))
             else s
         | _ \<Rightarrow> s))"

text \<open>
  \<^verbatim>\<open>visitParents(ast, "element", visitor)\<close> of unist-util-visit-parents: depth first, a node
  before its children, the children from left to right, the visitor on every element with
  the parents from the root down. The first argument bounds the depth of the walk; \<open>None\<close>
  says that the bound was too small.
\<close>

fun visitParents ::
  "(string \<Rightarrow> string) \<Rightarrow> (store \<Rightarrow> ref \<Rightarrow> string) \<Rightarrow> nat \<Rightarrow> ref \<Rightarrow> ref list
     \<Rightarrow> store \<times> diagramEntry list \<Rightarrow> (store \<times> diagramEntry list) option"
  and visitChildren ::
  "(string \<Rightarrow> string) \<Rightarrow> (store \<Rightarrow> ref \<Rightarrow> string) \<Rightarrow> nat \<Rightarrow> ref list \<Rightarrow> ref list
     \<Rightarrow> store \<times> diagramEntry list \<Rightarrow> (store \<times> diagramEntry list) option" where
  "visitParents md5hex toText 0 r parents s = None"
| "visitParents md5hex toText (Suc fuel) r parents s =
     (let s1 = visitor md5hex toText r parents s
      in case deref (fst s1) r of
           None \<Rightarrow> Some s1
         | Some n \<Rightarrow>
             (case childrenOf n of
                None \<Rightarrow> Some s1
              | Some cs \<Rightarrow> visitChildren md5hex toText fuel cs (parents @ [r]) s1))"
| "visitChildren md5hex toText fuel [] grandparents s = Some s"
| "visitChildren md5hex toText fuel (c # cs) grandparents s =
     (case visitParents md5hex toText fuel c grandparents s of
        None \<Rightarrow> None
      | Some s1 \<Rightarrow> visitChildren md5hex toText fuel cs grandparents s1)"

subsection \<open>The rewrite (\<^verbatim>\<open>parseSvg\<close> and \<^verbatim>\<open>applyThemeAST\<close>)\<close>

text \<open>
  \<^verbatim>\<open>[...(className || [])]\<close>: an absent or falsy value gives no token, an array its tokens,
  a string its characters; any other value is not iterable.
\<close>

fun spreadClassName :: "propval option \<Rightarrow> error + string list" where
  "spreadClassName None = Inr []"
| "spreadClassName (Some (PList cs)) = Inr cs"
| "spreadClassName (Some (PStr v)) = Inr (map (\<lambda>c. [c]) v)"
| "spreadClassName (Some (PBool b)) = (if b then Inl (TypeError ''className is not iterable'') else Inr [])"
| "spreadClassName (Some (PNum n)) = (if n = 0 then Inr [] else Inl (TypeError ''className is not iterable''))"

definition parseSvg :: "(string \<Rightarrow> hast list) \<Rightarrow> string \<Rightarrow> string list option \<Rightarrow> error + hast list" where
  "parseSvg fromHtml svgContent classNames =
     (let children = fromHtml svgContent
      in case children of
           [] \<Rightarrow> Inl (TypeError ''svgElement is undefined'')
         | svgElement # rest \<Rightarrow>
             (case (svgElement, classNames) of
                (HElement tagName props kids, Some extra) \<Rightarrow>
                  if tagName = ''svg'' \<and> length extra > 0 then
                    (case spreadClassName (map_of props ''className'') of
                       Inl e \<Rightarrow> Inl e
                     | Inr className \<Rightarrow>
                         Inr (HElement tagName
                                (AList.update ''className'' (PList (className @ extra)) props) kids
                              # rest))
                  else Inr children
              | _ \<Rightarrow> Inr children))"

text \<open>
  The repository also holds an earlier copy of the file (with its compiled form), in which
  \<^verbatim>\<open>parseSvg\<close> has no class-name parameter and gives every \<^verbatim>\<open>svg\<close> root the class \<^verbatim>\<open>mx-auto\<close>.
\<close>

definition parseSvg_earlier :: "(string \<Rightarrow> hast list) \<Rightarrow> string \<Rightarrow> error + hast list" where
  "parseSvg_earlier fromHtml svgContent =
     (let children = fromHtml svgContent
      in case children of
           [] \<Rightarrow> Inl (TypeError ''svgElement is undefined'')
         | svgElement # rest \<Rightarrow>
             (case svgElement of
                HElement tagName props kids \<Rightarrow>
                  if tagName = ''svg'' then
                    (case spreadClassName (map_of props ''className'') of
                       Inl e \<Rightarrow> Inl e
                     | Inr className \<Rightarrow>
                         Inr (HElement tagName
                                (AList.update ''className'' (PList (className @ [''mx-auto''])) props) kids
                              # rest))
                  else Inr children
              | _ \<Rightarrow> Inr children))"

text \<open>
  \<^verbatim>\<open>Object.fromEntries\<close> and \<^verbatim>\<open>Object.entries\<close> on theme names: a key stays where it was first
  inserted and keeps the last value given to it.
\<close>

definition fromEntries :: "('k \<times> 'v) list \<Rightarrow> ('k \<times> 'v) list" where
  "fromEntries ps = foldl (\<lambda>obj (k, v). AList.update k v obj) [] ps"

text \<open>Lines 143 to 154: one container per entry, the first one visible.\<close>

fun themeDivsFrom ::
  "(string \<Rightarrow> hast list) \<Rightarrow> string \<Rightarrow> string list option \<Rightarrow> nat \<Rightarrow> (theme \<times> string) list
     \<Rightarrow> error + hast list" where
  "themeDivsFrom fromHtml ident classNames index [] = Inr []"
| "themeDivsFrom fromHtml ident classNames index ((theme, svg) # entries) =
     (case parseSvg fromHtml svg classNames of
        Inl e \<Rightarrow> Inl e
      | Inr kids \<Rightarrow>
          (case themeDivsFrom fromHtml ident classNames (Suc index) entries of
             Inl e \<Rightarrow> Inl e
           | Inr divs \<Rightarrow>
               Inr (HElement ''div''
                      [(''id'', PStr (''mermaid-'' @ themeName theme @ ''-'' @ ident)),
                       (''className'', PList [''mermaid'', ''mermaid-'' @ themeName theme]),
                       (''style'', PStr (if index = 0 then ''display: block;'' else ''display: none;''))]
                      kids
                    # divs)))"

definition themeDivs ::
  "(string \<Rightarrow> hast list) \<Rightarrow> string \<Rightarrow> string list option \<Rightarrow> (theme \<times> string) list
     \<Rightarrow> error + hast list" where
  "themeDivs fromHtml ident classNames svgByTheme =
     themeDivsFrom fromHtml ident classNames 0 svgByTheme"

text \<open>Lines 156 to 161.\<close>

definition wrapperOf :: "string \<Rightarrow> hast list \<Rightarrow> hast" where
  "wrapperOf ident divs =
     HElement ''div'' [(''className'', PList [''mermaid-wrapper'']), (''id'', PStr ident)] divs"

text \<open>Lines 163 to 173: the node to replace and the parent to replace it in.\<close>

definition resolveTarget :: "store \<Rightarrow> ref \<Rightarrow> ref list \<Rightarrow> ref \<times> ref option" where
  "resolveTarget h r ancestors =
     (case jsAt ancestors (int (length ancestors) - 1) of
        None \<Rightarrow> (r, None)
      | Some parentNode \<Rightarrow>
          (case deref h parentNode of
             Some (Element tagName props cs) \<Rightarrow>
               if tagName = ''pre'' then (parentNode, jsAt ancestors (int (length ancestors) - 2))
               else (r, Some parentNode)
           | _ \<Rightarrow> (r, Some parentNode)))"

text \<open>Lines 175 to 178: the wrapper is created, and takes the place of the target if it is found.\<close>

definition replaceChild :: "store \<Rightarrow> ref option \<Rightarrow> ref \<Rightarrow> hast \<Rightarrow> store" where
  "replaceChild h parentNode targetNode wrapper =
     (case parentNode of
        None \<Rightarrow> h
      | Some p \<Rightarrow>
          (case deref h p of
             None \<Rightarrow> h
           | Some pn \<Rightarrow>
               (case childrenOf pn of
                  None \<Rightarrow> h
                | Some cs \<Rightarrow>
                    (case indexOf cs targetNode of
                       None \<Rightarrow> h
                     | Some index \<Rightarrow>
                         (case alloc wrapper h of
                            (w, h1) \<Rightarrow> h1[p := setChildren pn (cs[index := w])])))))"

definition applyThemeAST ::
  "(string \<Rightarrow> hast list) \<Rightarrow> store \<Rightarrow> ref \<Rightarrow> (theme \<times> string) list \<Rightarrow> string \<Rightarrow> ref list
     \<Rightarrow> string list option \<Rightarrow> error + store" where
  "applyThemeAST fromHtml h r svgByTheme ident ancestors classNames =
     (case themeDivs fromHtml ident classNames svgByTheme of
        Inl e \<Rightarrow> Inl e
      | Inr divs \<Rightarrow>
          (case resolveTarget h r ancestors of
             (targetNode, parentNode) \<Rightarrow>
               Inr (replaceChild h parentNode targetNode (wrapperOf ident divs))))"

subsection \<open>Rendering and rewriting every diagram (lines 57 to 71)\<close>

text \<open>
  The source starts the renders of all themes and of all diagrams together and awaits them.
  \<open>renderThemesOf\<close>, \<open>processDiagram\<close> and \<open>processAll\<close> are one run of it: they take the
  renders and the diagrams one after the other, in the order of the lists, and stop at the
  first failure. What every run may do to the document is \<open>rewriteInOrder\<close>, further down.
\<close>

fun renderThemesOf ::
  "renderer \<Rightarrow> (string \<Rightarrow> string) \<Rightarrow> path \<Rightarrow> string \<Rightarrow> puppeteerConfig option \<Rightarrow> theme list
     \<Rightarrow> world \<Rightarrow> (error + (theme \<times> string) list) \<times> world" where
  "renderThemesOf run md5hex tmpDir diagramText pc [] w = (Inr [], w)"
| "renderThemesOf run md5hex tmpDir diagramText pc (theme # themes) w =
     (case renderMermaidDiagram run md5hex tmpDir diagramText theme pc w of
        (Inl e, w1) \<Rightarrow> (Inl e, w1)
      | (Inr svg, w1) \<Rightarrow>
          (case renderThemesOf run md5hex tmpDir diagramText pc themes w1 of
             (Inl e, w2) \<Rightarrow> (Inl e, w2)
           | (Inr entries, w2) \<Rightarrow> (Inr ((theme, svg) # entries), w2)))"

definition processDiagram ::
  "renderer \<Rightarrow> (string \<Rightarrow> string) \<Rightarrow> path \<Rightarrow> (string \<Rightarrow> hast list) \<Rightarrow> RehypeMermaidOptions
     \<Rightarrow> diagramEntry \<Rightarrow> store \<times> world \<Rightarrow> (error + store) \<times> world" where
  "processDiagram run md5hex tmpDir fromHtml options d s =
     (case s of (h, w) \<Rightarrow>
        (case renderThemesOf run md5hex tmpDir (dDiagram d) (puppeteerConfig options)
                (renderThemes options) w of
           (Inl e, w1) \<Rightarrow> (Inl e, w1)
         | (Inr entries, w1) \<Rightarrow>
             (applyThemeAST fromHtml h (dNode d) (fromEntries entries) (dId d) (dAncestors d)
                (svgClassNames options), w1)))"

fun processAll ::
  "renderer \<Rightarrow> (string \<Rightarrow> string) \<Rightarrow> path \<Rightarrow> (string \<Rightarrow> hast list) \<Rightarrow> RehypeMermaidOptions
     \<Rightarrow> diagramEntry list \<Rightarrow> store \<times> world \<Rightarrow> error option \<times> store \<times> world" where
  "processAll run md5hex tmpDir fromHtml options [] s = (None, s)"
| "processAll run md5hex tmpDir fromHtml options (d # ds) s =
     (case processDiagram run md5hex tmpDir fromHtml options d s of
        (Inl e, w1) \<Rightarrow> (Some e, fst s, w1)
      | (Inr h1, w1) \<Rightarrow> processAll run md5hex tmpDir fromHtml options ds (h1, w1))"

text \<open>The transformer that \<^verbatim>\<open>rehypeMermaidCLI(_options)\<close> returns, run on the root \<open>ast\<close>.\<close>

definition rehypeMermaidCLI ::
  "renderer \<Rightarrow> (string \<Rightarrow> string) \<Rightarrow> path \<Rightarrow> (string \<Rightarrow> hast list) \<Rightarrow> (store \<Rightarrow> ref \<Rightarrow> string)
     \<Rightarrow> RehypeMermaidOptions option \<Rightarrow> nat \<Rightarrow> ref \<Rightarrow> store \<times> world
     \<Rightarrow> (error option \<times> store \<times> world) option" where
  "rehypeMermaidCLI run md5hex tmpDir fromHtml toText given fuel ast s =
     (let options = resolveOptions given
      in case s of (h, w) \<Rightarrow>
           (case visitParents md5hex toText fuel ast [] (h, []) of
              None \<Rightarrow> None
            | Some (h1, diagrams) \<Rightarrow>
                Some (processAll run md5hex tmpDir fromHtml options diagrams (h1, w))))"

text \<open>
  Every run of lines 57 to 71. Discovery is over before the first render starts, and a rewrite
  is one synchronous call of \<^verbatim>\<open>applyThemeAST\<close>; between them the tasks of the diagrams
  interleave. So the document goes through the rewrites of the diagrams whose renders have all
  resolved, one rewrite at a time, in the order in which the tasks complete. A schedule lists
  the tasks in that order: a diagram with \<open>None\<close> when one of its renders rejected, so that
  \<^verbatim>\<open>applyThemeAST\<close> is not called for it, or with the entries that the awaited renders
  returned. A task that fails, in a render or in \<^verbatim>\<open>parseSvg\<close>, leaves the document alone and
  does not stop the tasks of the other diagrams, although the promise of the transformer is
  rejected by then. The contents of the entries are whatever the renders returned.
\<close>

fun rewriteInOrder ::
  "(string \<Rightarrow> hast list) \<Rightarrow> RehypeMermaidOptions
     \<Rightarrow> (diagramEntry \<times> (theme \<times> string) list option) list \<Rightarrow> store \<Rightarrow> store" where
  "rewriteInOrder fromHtml options [] h = h"
| "rewriteInOrder fromHtml options ((d, None) # rest) h = rewriteInOrder fromHtml options rest h"
| "rewriteInOrder fromHtml options ((d, Some entries) # rest) h =
     (case applyThemeAST fromHtml h (dNode d) (fromEntries entries) (dId d) (dAncestors d)
             (svgClassNames options) of
        Inl e \<Rightarrow> rewriteInOrder fromHtml options rest h
      | Inr h1 \<Rightarrow> rewriteInOrder fromHtml options rest h1)"

subsection \<open>Notions used in the statements\<close>


text \<open>The node at \<open>p\<close> is an element with the tag name \<^verbatim>\<open>pre\<close>.\<close>

definition isPre :: "store \<Rightarrow> ref \<Rightarrow> bool" where
  "isPre h p = (case deref h p of Some (Element tagName props cs) \<Rightarrow> tagName = ''pre'' | _ \<Rightarrow> False)"

text \<open>
  \<open>below h r q\<close>: the node \<open>q\<close> is \<open>r\<close> or one of its descendants in the store \<open>h\<close>.
\<close>

inductive below :: "store \<Rightarrow> ref \<Rightarrow> ref \<Rightarrow> bool" for h :: store where
  here: "r < length h \<Longrightarrow> below h r r"
| down: "deref h r = Some n \<Longrightarrow> childrenOf n = Some cs \<Longrightarrow> c \<in> set cs \<Longrightarrow> below h c q
           \<Longrightarrow> below h r q"

text \<open>
  The selection predicate in the words of the specification: a \<^verbatim>\<open>code\<close> element whose class
  list contains the token \<^verbatim>\<open>language-mermaid\<close>.
\<close>

definition isDiagramBlock :: "store \<Rightarrow> ref \<Rightarrow> bool" where
  "isDiagramBlock h q =
     (\<exists>props cs className. deref h q = Some (Element ''code'' props cs)
        \<and> map_of props ''className'' = Some (PList className)
        \<and> ''language-mermaid'' \<in> set className)"

text \<open>
  \<open>heightBelow h r n\<close>: no path from \<open>r\<close> down through the children has more than \<open>n\<close> nodes,
  so a walk from \<open>r\<close> needs no more than \<open>n\<close> nested calls.
\<close>

fun heightBelow :: "store \<Rightarrow> ref \<Rightarrow> nat \<Rightarrow> bool" where
  "heightBelow h r 0 = False"
| "heightBelow h r (Suc n) =
     (case deref h r of
        None \<Rightarrow> True
      | Some nd \<Rightarrow> (case childrenOf nd of None \<Rightarrow> True | Some cs \<Rightarrow> (\<forall>c \<in> set cs. heightBelow h c n)))"

text \<open>
  What discovery may do to a cell (it sets the id of a selected element and nothing else),
  to a store, and what is recorded for a selected node.
\<close>

definition cellRel :: "node \<Rightarrow> node \<Rightarrow> bool" where
  "cellRel n n' =
     (n' = n \<or>
      (isMermaidCode n \<and>
       (\<exists>tagName props props' cs. n = Element tagName props cs \<and> n' = Element tagName props' cs
          \<and> map_of props' ''className'' = map_of props ''className'')))"

definition sameDoc :: "store \<Rightarrow> store \<Rightarrow> bool" where
  "sameDoc h h' = (length h' = length h \<and> (\<forall>r < length h. cellRel (h ! r) (h' ! r)))"

definition found :: "store \<Rightarrow> diagramEntry \<Rightarrow> bool" where
  "found h d = (dNode d < length h \<and> isMermaidCode (h ! dNode d)
                  \<and> (\<forall>a \<in> set (dAncestors d). below h a (dNode d)))"

text \<open>
  The last ancestor recorded for a diagram, if there is one, has the diagram node among its
  children.
\<close>

definition parented :: "store \<Rightarrow> diagramEntry \<Rightarrow> bool" where
  "parented h d =
     (dAncestors d = [] \<or>
      (\<exists>n cs. deref h (last (dAncestors d)) = Some n \<and> childrenOf n = Some cs \<and> dNode d \<in> set cs))"

text \<open>
  A node that a rewrite may replace: a diagram block, or a \<^verbatim>\<open>pre\<close> element with a diagram
  block among its children.
\<close>

definition isTarget :: "store \<Rightarrow> ref \<Rightarrow> bool" where
  "isTarget h t =
     (isDiagramBlock h t \<or>
      (isPre h t \<and> (\<exists>n cs. deref h t = Some n \<and> childrenOf n = Some cs
                        \<and> (\<exists>d \<in> set cs. isDiagramBlock h d))))"

text \<open>
  \<open>passesThrough h ast q\<close>: the node \<open>q\<close> of the document under \<open>ast\<close> has no diagram block at
  or below it, and is not itself, nor lies below, a node that a rewrite may replace.
\<close>

definition passesThrough :: "store \<Rightarrow> ref \<Rightarrow> ref \<Rightarrow> bool" where
  "passesThrough h ast q =
     (below h ast q \<and> (\<forall>c. below h q c \<longrightarrow> \<not> isDiagramBlock h c)
        \<and> (\<forall>t. below h ast t \<and> below h t q \<longrightarrow> \<not> isTarget h t))"

text \<open>The nodes at or below \<open>r\<close>, down to the depth \<open>n\<close>, as a list.\<close>

fun nodesBelow :: "store \<Rightarrow> nat \<Rightarrow> ref \<Rightarrow> ref list" where
  "nodesBelow h 0 r = []"
| "nodesBelow h (Suc n) r =
     (case deref h r of
        None \<Rightarrow> []
      | Some nd \<Rightarrow> r # (case childrenOf nd of None \<Rightarrow> [] | Some cs \<Rightarrow> concat (map (nodesBelow h n) cs)))"

subsection \<open>Inputs of the examples\<close>

text \<open>
  Stand-ins for the parameters, used by the closed examples only: \<open>mdw\<close> agrees with MD5 on
  the two diagram texts of the examples, \<open>okRun\<close> writes a small graphic to the output path,
  \<open>failingRun\<close> leaves half a graphic there and rejects, \<open>silentRun\<close> resolves and writes
  nothing, \<open>fromHtmlW\<close> parses the graphics the examples use, and \<open>toTextW\<close> reads the text
  of a block with one text child.
\<close>

definition mdw :: "string \<Rightarrow> string" where
  "mdw s = (if s = ''graph TD; A-->B;'' then ''536b8b06533e757bc81dd797f36e0d9d''
            else if s = ''graph LR; X-->Y;'' then ''39b03fd03fa9bfa45d88271d4c8af1f9'' else [])"

definition okRun :: renderer where
  "okRun inp out opts fs = (None, fs(out \<mapsto> ''<svg></svg>''))"

definition emptyWorld :: world where
  "emptyWorld = \<lparr>files = (\<lambda>p. None), invocations = []\<rparr>"

definition fromHtmlW :: "string \<Rightarrow> hast list" where
  "fromHtmlW s = (if s = [] then [] else if s = ''<svg></svg>'' then [HElement ''svg'' [] []]
     else if s = ''<svg class=\"flowchart\"></svg>'' then [HElement ''svg'' [(''className'', PList [''flowchart''])] []]
     else [HText s])"

definition toTextW :: "store \<Rightarrow> ref \<Rightarrow> string" where
  "toTextW h r = (case deref h r of Some (Element t p [c]) \<Rightarrow> (case deref h c of Some (Text v) \<Rightarrow> v | _ \<Rightarrow> []) | _ \<Rightarrow> [])"

definition failingRun :: renderer where
  "failingRun inp out opts fs = (Some ''Parse error on line 1'', fs(out \<mapsto> ''<svg''))"

definition silentRun :: renderer where
  "silentRun inp out opts fs = (None, fs)"

text \<open>
  \<open>docA\<close> is \<^verbatim>\<open><pre><code class="language-mermaid">graph TD; A-->B;</code></pre>\<close>,
  \<open>docN\<close> has the diagram block directly inside a code block of another language,
  \<open>docP\<close> has two diagram blocks in one \<^verbatim>\<open>pre\<close>, \<open>docJ\<close> has a code block of another
  language in a \<^verbatim>\<open>pre\<close> of its own before the diagram block, and \<open>docS\<close> has a code block of
  another language in the same \<^verbatim>\<open>pre\<close> as the diagram block.
\<close>

definition docA :: store where
  "docA = [Root [1], Element ''pre'' [] [2],
           Element ''code'' [(''className'', PList [''language-mermaid''])] [3],
           Text ''graph TD; A-->B;'']"

definition docN :: store where
  "docN = [Root [1], Element ''pre'' [] [2],
           Element ''code'' [(''className'', PList [''language-js''])] [3],
           Element ''code'' [(''className'', PList [''language-mermaid''])] [4],
           Text ''graph TD; A-->B;'']"

definition docP :: store where
  "docP = [Root [1], Element ''pre'' [] [2, 4],
           Element ''code'' [(''className'', PList [''language-mermaid''])] [3],
           Text ''graph TD; A-->B;'',
           Element ''code'' [(''className'', PList [''language-mermaid''])] [5],
           Text ''graph LR; X-->Y;'']"

definition docS :: store where
  "docS = [Root [1], Element ''pre'' [] [2, 4],
           Element ''code'' [(''className'', PList [''language-js''])] [3],
           Text ''console.log(1);'',
           Element ''code'' [(''className'', PList [''language-mermaid''])] [5],
           Text ''graph TD; A-->B;'']"

text \<open>Stores and containers that the examples arrive at.\<close>

definition divDefault :: hast where
  "divDefault = HElement ''div''
     [(''id'', PStr ''mermaid-default-mermaid-536b8b06''),
      (''className'', PList [''mermaid'', ''mermaid-default'']),
      (''style'', PStr ''display: block;'')]
     [HElement ''svg'' [] []]"


definition docA_rewritten :: store where
  "docA_rewritten = [Root [6], Element ''pre'' [] [2],
           Element ''code'' [(''className'', PList [''language-mermaid''])] [3],
           Text ''graph TD; A-->B;'',
           Element ''svg'' [] [],
           Element ''div''
             [(''id'', PStr ''mermaid-default-mermaid-536b8b06''),
              (''className'', PList [''mermaid'', ''mermaid-default'']),
              (''style'', PStr ''display: block;'')] [4],
           Element ''div'' [(''className'', PList [''mermaid-wrapper'']), (''id'', PStr ''mermaid-536b8b06'')] [5]]"

definition docP_rewritten :: store where
  "docP_rewritten = [Root [8], Element ''pre'' [] [2, 4],
           Element ''code'' [(''className'', PList [''language-mermaid'']), (''id'', PStr ''mermaid-536b8b06'')] [3],
           Text ''graph TD; A-->B;'',
           Element ''code'' [(''className'', PList [''language-mermaid'']), (''id'', PStr ''mermaid-39b03fd0'')] [5],
           Text ''graph LR; X-->Y;'',
           Element ''svg'' [] [],
           Element ''div''
             [(''id'', PStr ''mermaid-default-mermaid-536b8b06''),
              (''className'', PList [''mermaid'', ''mermaid-default'']),
              (''style'', PStr ''display: block;'')] [6],
           Element ''div'' [(''className'', PList [''mermaid-wrapper'']), (''id'', PStr ''mermaid-536b8b06'')] [7]]"

definition docJ :: store where
  "docJ = [Root [1, 4], Element ''pre'' [] [2],
           Element ''code'' [(''className'', PList [''language-javascript''])] [3],
           Text ''console.log(1);'',
           Element ''pre'' [] [5],
           Element ''code'' [(''className'', PList [''language-mermaid''])] [6],
           Text ''graph TD; A-->B;'']"

definition docJ_rewritten :: store where
  "docJ_rewritten = [Root [1, 9], Element ''pre'' [] [2],
           Element ''code'' [(''className'', PList [''language-javascript''])] [3],
           Text ''console.log(1);'',
           Element ''pre'' [] [5],
           Element ''code'' [(''className'', PList [''language-mermaid'']), (''id'', PStr ''mermaid-536b8b06'')] [6],
           Text ''graph TD; A-->B;'',
           Element ''svg'' [] [],
           Element ''div''
             [(''id'', PStr ''mermaid-default-mermaid-536b8b06''),
              (''className'', PList [''mermaid'', ''mermaid-default'']),
              (''style'', PStr ''display: block;'')] [7],
           Element ''div'' [(''className'', PList [''mermaid-wrapper'']), (''id'', PStr ''mermaid-536b8b06'')] [8]]"

definition docN_rewritten :: store where
  "docN_rewritten = [Root [1], Element ''pre'' [] [2],
           Element ''code'' [(''className'', PList [''language-js''])] [7],
           Element ''code'' [(''className'', PList [''language-mermaid'']), (''id'', PStr ''mermaid-536b8b06'')] [4],
           Text ''graph TD; A-->B;'',
           Element ''svg'' [] [],
           Element ''div''
             [(''id'', PStr ''mermaid-default-mermaid-536b8b06''),
              (''className'', PList [''mermaid'', ''mermaid-default'']),
              (''style'', PStr ''display: block;'')] [5],
           Element ''div'' [(''className'', PList [''mermaid-wrapper'']), (''id'', PStr ''mermaid-536b8b06'')] [6]]"

definition docS_rewritten :: store where
  "docS_rewritten = [Root [8], Element ''pre'' [] [2, 4],
           Element ''code'' [(''className'', PList [''language-js''])] [3],
           Text ''console.log(1);'',
           Element ''code'' [(''className'', PList [''language-mermaid'']), (''id'', PStr ''mermaid-536b8b06'')] [5],
           Text ''graph TD; A-->B;'',
           Element ''svg'' [] [],
           Element ''div''
             [(''id'', PStr ''mermaid-default-mermaid-536b8b06''),
              (''className'', PList [''mermaid'', ''mermaid-default'']),
              (''style'', PStr ''display: block;'')] [6],
           Element ''div'' [(''className'', PList [''mermaid-wrapper'']), (''id'', PStr ''mermaid-536b8b06'')] [7]]"

text \<open>What discovery makes of \<open>docJ\<close>: the store and the one diagram found.\<close>

definition docJ_found :: store where
  "docJ_found = [Root [1, 4], Element ''pre'' [] [2],
           Element ''code'' [(''className'', PList [''language-javascript''])] [3],
           Text ''console.log(1);'',
           Element ''pre'' [] [5],
           Element ''code'' [(''className'', PList [''language-mermaid'']), (''id'', PStr ''mermaid-536b8b06'')] [6],
           Text ''graph TD; A-->B;'']"

definition docJ_entry :: diagramEntry where
  "docJ_entry = \<lparr>dDiagram = ''graph TD; A-->B;'', dId = ''mermaid-536b8b06'', dNode = 5, dAncestors = [0, 4]\<rparr>"

section \<open>Theorems\<close>

text \<open>The definitions that the closed examples unfold.\<close>

lemmas world_defs = renderMermaidDiagram_def exists_def readFile_def writeFile_def callRun_def
  emptyWorld_def finalOutput_def inputFile_def pathJoin_def getDiagramIdWithTheme_def mdw_def
  runOptionsFor_def Let_def

lemmas rewrite_defs = applyThemeAST_def themeDivs_def wrapperOf_def resolveTarget_def replaceChild_def
  deref_def jsAt_def parseSvg_def fromHtmlW_def

lemmas discover_defs = visitor_def isMermaidCode_def toTextW_def getDiagramId_def deref_def mdw_def

lemmas pipeline_defs = rehypeMermaidCLI_def resolveOptions_def defaultOptions_def
  processDiagram_def fromEntries_def rewrite_defs world_defs okRun_def

subsection \<open>Identity\<close>

lemma themeName_inject: "(themeName t1 = themeName t2) = (t1 = t2)"
  by (cases t1; cases t2) simp_all

text \<open>
  C7. For one source text, two themes give two different themed ids, and one theme gives
  one id: the themed ids of a text are equal exactly when the themes are.
\<close>

theorem getDiagramIdWithTheme_distinct:
  "(getDiagramIdWithTheme md5hex s t1 = getDiagramIdWithTheme md5hex s t2) = (t1 = t2)"
  by (simp add: getDiagramIdWithTheme_def themeName_inject)

subsection \<open>The render cache\<close>

lemma startsWith_append: "startsWith (s @ r) s"
  by (induction s) simp_all

lemma includesStr_startsWith: "startsWith x s \<Longrightarrow> includesStr x s"
  by (cases x; cases s) simp_all

lemma includesStr_append: "includesStr (p @ s @ r) s"
  by (induction p) (simp_all add: includesStr_startsWith startsWith_append)

text \<open>
  C4. If an artifact exists at the output location of the themed id, the call returns its
  content and leaves the world as it was, so the renderer is not invoked; and after a call
  that returned an artifact, the same call returns the same content from the cache, again
  without an invocation.
\<close>

theorem renderMermaidDiagram_cached:
  "(files w (finalOutput md5hex tmpDir s t) = Some c \<longrightarrow>
      renderMermaidDiagram run md5hex tmpDir s t pc w = (Inr c, w)) \<and>
   (renderMermaidDiagram run md5hex tmpDir s t pc w = (Inr c, w') \<longrightarrow>
      renderMermaidDiagram run md5hex tmpDir s t pc w' = (Inr c, w')
      \<and> invocations (snd (renderMermaidDiagram run md5hex tmpDir s t pc w')) = invocations w')"
  by (auto simp: renderMermaidDiagram_def exists_def readFile_def Let_def
           split: option.splits prod.splits if_splits)

theorem renderMermaidDiagram_cached_witness:
  "files (snd (renderMermaidDiagram okRun mdw ''/tmp'' ''graph TD; A-->B;'' Dark None emptyWorld))
      (finalOutput mdw ''/tmp'' ''graph TD; A-->B;'' Dark) = Some ''<svg></svg>''
   \<and> length (invocations (snd (renderMermaidDiagram okRun mdw ''/tmp'' ''graph TD; A-->B;'' Dark None emptyWorld))) = 1
   \<and> renderMermaidDiagram okRun mdw ''/tmp'' ''graph TD; A-->B;'' Dark None
        (snd (renderMermaidDiagram okRun mdw ''/tmp'' ''graph TD; A-->B;'' Dark None emptyWorld))
      = (Inr ''<svg></svg>'',
         snd (renderMermaidDiagram okRun mdw ''/tmp'' ''graph TD; A-->B;'' Dark None emptyWorld))"
proof -
  let ?w = "snd (renderMermaidDiagram okRun mdw ''/tmp'' ''graph TD; A-->B;'' Dark None emptyWorld)"
  have out: "files ?w (finalOutput mdw ''/tmp'' ''graph TD; A-->B;'' Dark)
               = Some ''<svg></svg>''"
    by (simp add: renderMermaidDiagram_def exists_def readFile_def writeFile_def callRun_def okRun_def
          emptyWorld_def finalOutput_def inputFile_def pathJoin_def getDiagramIdWithTheme_def mdw_def
          runOptionsFor_def Let_def)
  have n: "length (invocations ?w) = 1"
    by (simp add: renderMermaidDiagram_def exists_def readFile_def writeFile_def callRun_def okRun_def
          emptyWorld_def finalOutput_def inputFile_def pathJoin_def getDiagramIdWithTheme_def mdw_def
          runOptionsFor_def Let_def)
  from out renderMermaidDiagram_cached [of ?w mdw "''/tmp''" "''graph TD; A-->B;''" Dark
      "''<svg></svg>''" okRun None]
  have "renderMermaidDiagram okRun mdw ''/tmp'' ''graph TD; A-->B;'' Dark None ?w
          = (Inr ''<svg></svg>'', ?w)"
    by blast
  with out n show ?thesis by blast
qed

text \<open>
  C5, as amended. With no artifact at the output location: if the renderer rejects, the
  call fails with the renderer's own error; if the renderer resolves and the output
  location is still empty, the call fails with the not-found error of the output location,
  whose message contains the themed id and the theme name. Either way the files are as the
  renderer left them: the code writes the staged source only, and removes nothing.
\<close>

theorem renderMermaidDiagram_failure:
  assumes miss: "files w (finalOutput md5hex tmpDir s t) = None"
    and ran: "run (inputFile md5hex tmpDir s t) (finalOutput md5hex tmpDir s t)
                (runOptionsFor (getDiagramIdWithTheme md5hex s t) t pc)
                ((files w)(inputFile md5hex tmpDir s t \<mapsto> s)) = (r, fs)"
  shows "(r = Some m \<longrightarrow>
            fst (renderMermaidDiagram run md5hex tmpDir s t pc w) = Inl (RenderError m)) \<and>
         (r = None \<and> fs (finalOutput md5hex tmpDir s t) = None \<longrightarrow>
            fst (renderMermaidDiagram run md5hex tmpDir s t pc w) = Inl (ENOENT (finalOutput md5hex tmpDir s t))
            \<and> includesStr (errorMessage (ENOENT (finalOutput md5hex tmpDir s t)))
                  (getDiagramIdWithTheme md5hex s t)
            \<and> includesStr (errorMessage (ENOENT (finalOutput md5hex tmpDir s t))) (themeName t)) \<and>
         files (snd (renderMermaidDiagram run md5hex tmpDir s t pc w)) = fs"
proof -
  have a: "includesStr (errorMessage (ENOENT (finalOutput md5hex tmpDir s t)))
             (getDiagramIdWithTheme md5hex s t)"
    using includesStr_append [of "''ENOENT: no such file or directory, open '' @ [CHR 0x27] @ tmpDir @ ''/''"
        "getDiagramIdWithTheme md5hex s t" "''.svg'' @ [CHR 0x27]"]
    by (simp add: finalOutput_def pathJoin_def)
  have b: "includesStr (errorMessage (ENOENT (finalOutput md5hex tmpDir s t))) (themeName t)"
    using includesStr_append [of "''ENOENT: no such file or directory, open '' @ [CHR 0x27] @ tmpDir @ ''/''
          @ ''mermaid-'' @ take 8 (md5hex s) @ ''-''"
        "themeName t" "''.svg'' @ [CHR 0x27]"]
    by (simp add: finalOutput_def pathJoin_def getDiagramIdWithTheme_def)
  have c: "r = Some m \<Longrightarrow> fst (renderMermaidDiagram run md5hex tmpDir s t pc w) = Inl (RenderError m)"
    using miss ran
    by (simp add: renderMermaidDiagram_def exists_def writeFile_def callRun_def Let_def)
  have d: "r = None \<Longrightarrow> fs (finalOutput md5hex tmpDir s t) = None \<Longrightarrow>
      fst (renderMermaidDiagram run md5hex tmpDir s t pc w) = Inl (ENOENT (finalOutput md5hex tmpDir s t))"
    using miss ran
    by (simp add: renderMermaidDiagram_def exists_def readFile_def writeFile_def callRun_def Let_def)
  have e: "files (snd (renderMermaidDiagram run md5hex tmpDir s t pc w)) = fs"
    using miss ran
    by (cases r; cases "fs (finalOutput md5hex tmpDir s t)")
       (simp_all add: renderMermaidDiagram_def exists_def readFile_def writeFile_def callRun_def Let_def)
  show ?thesis
    using a b c d e by blast
qed

text \<open>
  The claim of C5 as it was stated fails: a renderer that rejects with its own message after
  it left half a graphic at the output location makes the call fail with that message, which
  names neither the id nor the theme, and the half graphic stays where the cache looks.
\<close>

theorem renderMermaidDiagram_failure_counterexample:
  "fst (renderMermaidDiagram failingRun mdw ''/tmp'' ''graph TD; A-->B;'' Dark None emptyWorld)
     = Inl (RenderError ''Parse error on line 1'')
   \<and> \<not> includesStr (errorMessage (RenderError ''Parse error on line 1''))
          (getDiagramIdWithTheme mdw ''graph TD; A-->B;'' Dark)
   \<and> \<not> includesStr (errorMessage (RenderError ''Parse error on line 1'')) (themeName Dark)
   \<and> files (snd (renderMermaidDiagram failingRun mdw ''/tmp'' ''graph TD; A-->B;'' Dark None emptyWorld))
        (finalOutput mdw ''/tmp'' ''graph TD; A-->B;'' Dark) = Some ''<svg''"
  by (simp add: world_defs failingRun_def)

theorem renderMermaidDiagram_failure_witness:
  "files emptyWorld (finalOutput mdw ''/tmp'' ''graph TD; A-->B;'' Dark) = None
   \<and> fst (renderMermaidDiagram failingRun mdw ''/tmp'' ''graph TD; A-->B;'' Dark None emptyWorld)
       = Inl (RenderError ''Parse error on line 1'')
   \<and> fst (renderMermaidDiagram silentRun mdw ''/tmp'' ''graph TD; A-->B;'' Dark None emptyWorld)
       = Inl (ENOENT ''/tmp/mermaid-536b8b06-dark.svg'')
   \<and> includesStr (errorMessage (ENOENT ''/tmp/mermaid-536b8b06-dark.svg'')) ''mermaid-536b8b06-dark''
   \<and> includesStr (errorMessage (ENOENT ''/tmp/mermaid-536b8b06-dark.svg'')) ''dark''
   \<and> files (snd (renderMermaidDiagram silentRun mdw ''/tmp'' ''graph TD; A-->B;'' Dark None emptyWorld))
        ''/tmp/mermaid-536b8b06-dark.svg'' = None"
proof -
  let ?inp = "inputFile mdw ''/tmp'' ''graph TD; A-->B;'' Dark"
  let ?out = "finalOutput mdw ''/tmp'' ''graph TD; A-->B;'' Dark"
  let ?opts = "runOptionsFor (getDiagramIdWithTheme mdw ''graph TD; A-->B;'' Dark) Dark None"
  let ?fs = "(files emptyWorld)(?inp \<mapsto> ''graph TD; A-->B;'')"
  have miss: "files emptyWorld ?out = None"
    by (simp add: emptyWorld_def)
  have out: "?out = ''/tmp/mermaid-536b8b06-dark.svg''"
    by (simp add: finalOutput_def pathJoin_def getDiagramIdWithTheme_def mdw_def)
  have ident: "getDiagramIdWithTheme mdw ''graph TD; A-->B;'' Dark = ''mermaid-536b8b06-dark''"
    by (simp add: getDiagramIdWithTheme_def mdw_def)
  have r1: "failingRun ?inp ?out ?opts ?fs = (Some ''Parse error on line 1'', ?fs(?out \<mapsto> ''<svg''))"
    by (simp add: failingRun_def)
  have r2: "silentRun ?inp ?out ?opts ?fs = (None, ?fs)"
    by (simp add: silentRun_def)
  have none: "?fs ?out = None"
    by (simp add: emptyWorld_def inputFile_def finalOutput_def pathJoin_def)
  from renderMermaidDiagram_failure [where run = failingRun and md5hex = mdw and w = emptyWorld
      and m = "''Parse error on line 1''", OF miss r1]
  have a: "fst (renderMermaidDiagram failingRun mdw ''/tmp'' ''graph TD; A-->B;'' Dark None emptyWorld)
       = Inl (RenderError ''Parse error on line 1'')"
    by blast
  from renderMermaidDiagram_failure [where run = silentRun and md5hex = mdw and w = emptyWorld
      and m = "[]", OF miss r2] none
  have b: "fst (renderMermaidDiagram silentRun mdw ''/tmp'' ''graph TD; A-->B;'' Dark None emptyWorld)
              = Inl (ENOENT ?out)"
      "includesStr (errorMessage (ENOENT ?out)) (getDiagramIdWithTheme mdw ''graph TD; A-->B;'' Dark)"
      "includesStr (errorMessage (ENOENT ?out)) (themeName Dark)"
      "files (snd (renderMermaidDiagram silentRun mdw ''/tmp'' ''graph TD; A-->B;'' Dark None emptyWorld)) = ?fs"
    by blast+
  from b(4) none have c: "files (snd (renderMermaidDiagram silentRun mdw ''/tmp'' ''graph TD; A-->B;'' Dark None emptyWorld))
        ?out = None" by simp
  show ?thesis
    using miss a b(1,2,3) c unfolding out ident by simp
qed

subsection \<open>The store\<close>

lemma alloc_extends:
  "alloc t h = (r, h') \<Longrightarrow> \<exists>new. h' = h @ new \<and> new \<noteq> [] \<and> r = length h' - 1"
  "allocAll ts h = (rs, h') \<Longrightarrow> \<exists>new. h' = h @ new"
proof (induction t h and ts h arbitrary: r h' and rs h' rule: alloc_allocAll.induct)
  case (1 tagName props kids h)
  then show ?case by (fastforce split: prod.splits)
next
  case (6 t ts h)
  then show ?case by (fastforce split: prod.splits)
qed auto

lemma alloc_root:
  "alloc (HElement tagName props kids) h = (w, h') \<Longrightarrow>
     \<exists>rs. length h \<le> w \<and> w < length h' \<and> h' ! w = Element tagName props rs"
  using alloc_extends(2) by (fastforce split: prod.splits)

lemma indexOf_Some: "indexOf cs x = Some i \<Longrightarrow> i < length cs \<and> cs ! i = x \<and> (\<forall>j < i. cs ! j \<noteq> x)"
proof (induction cs arbitrary: i)
  case Nil
  then show ?case by simp
next
  case (Cons y ys)
  show ?case
  proof (cases "y = x")
    case True
    with Cons.prems show ?thesis by simp
  next
    case False
    with Cons.prems obtain k where k: "indexOf ys x = Some k" "i = Suc k" by auto
    from Cons.IH [OF k(1)] False k(2) show ?thesis
      by (auto simp: nth_Cons split: nat.splits)
  qed
qed

lemma indexOf_None: "(indexOf cs x = None) = (x \<notin> set cs)"
  by (induction cs) auto

lemma replaceChild_found:
  assumes "deref h p = Some pn" "childrenOf pn = Some cs" "indexOf cs t = Some i"
  shows "replaceChild h (Some p) t wr = (snd (alloc wr h))[p := setChildren pn (cs[i := fst (alloc wr h)])]"
  using assms by (simp add: replaceChild_def split: prod.splits)

lemma replaceChild_missing:
  assumes "deref h p = Some pn" "childrenOf pn = Some cs" "t \<notin> set cs"
  shows "replaceChild h (Some p) t wr = h"
  using assms indexOf_None [of cs t] by (simp add: replaceChild_def)

lemma childrenOf_setChildren: "childrenOf pn = Some cs \<Longrightarrow> childrenOf (setChildren pn cs') = Some cs'"
  by (cases pn) simp_all

subsection \<open>The rewrite\<close>

text \<open>
  C2. When the target is found at index \<open>i\<close> of the splice parent's children, the rewrite
  puts a new cell holding the wrapper at index \<open>i\<close>; the list keeps its length and its
  other entries, the parent keeps its tag and properties, and every other cell of the store
  is unchanged.
\<close>

theorem applyThemeAST_in_place:
  assumes ok: "applyThemeAST fromHtml h r svgByTheme ident ancestors classNames = Inr h'"
    and tgt: "resolveTarget h r ancestors = (targetNode, Some p)"
    and par: "deref h p = Some pn" "childrenOf pn = Some cs"
    and idx: "indexOf cs targetNode = Some i"
  shows "\<exists>w kids. i < length cs \<and> cs ! i = targetNode
           \<and> deref h' p = Some (setChildren pn (cs[i := w]))
           \<and> childrenOf (setChildren pn (cs[i := w])) = Some (cs[i := w])
           \<and> (cs[i := w]) ! i = w
           \<and> length h \<le> w
           \<and> deref h' w = Some (Element ''div''
                 [(''className'', PList [''mermaid-wrapper'']), (''id'', PStr ident)] kids)
           \<and> length (cs[i := w]) = length cs
           \<and> (\<forall>j < length cs. j \<noteq> i \<longrightarrow> (cs[i := w]) ! j = cs ! j)
           \<and> (\<forall>q < length h. q \<noteq> p \<longrightarrow> deref h' q = deref h q)"
proof -
  from ok obtain divs where divs: "themeDivs fromHtml ident classNames svgByTheme = Inr divs"
    and h': "h' = replaceChild h (Some p) targetNode (wrapperOf ident divs)"
    using tgt by (auto simp: applyThemeAST_def split: sum.splits)
  obtain w h1 where al: "alloc (wrapperOf ident divs) h = (w, h1)" by (cases "alloc (wrapperOf ident divs) h")
  from alloc_extends(1) [OF al] obtain new where new: "h1 = h @ new" "new \<noteq> []" "w = length h1 - 1"
    by blast
  from al alloc_root [of "''div''" _ divs h w h1] obtain kids where
    w: "length h \<le> w" "w < length h1"
       "h1 ! w = Element ''div'' [(''className'', PList [''mermaid-wrapper'']), (''id'', PStr ident)] kids"
    by (auto simp: wrapperOf_def)
  from par have p: "p < length h" "h ! p = pn" by (auto simp: deref_def split: if_splits)
  have eq: "h' = h1[p := setChildren pn (cs[i := w])]"
    using h' replaceChild_found [OF par idx, of "wrapperOf ident divs"] al by simp
  from indexOf_Some [OF idx] have i: "i < length cs" "cs ! i = targetNode" by simp_all
  have a: "deref h' p = Some (setChildren pn (cs[i := w]))"
    using eq p new by (simp add: deref_def)
  have b: "deref h' w = Some (Element ''div''
                 [(''className'', PList [''mermaid-wrapper'']), (''id'', PStr ident)] kids)"
    using eq w p by (simp add: deref_def)
  have c: "\<forall>q < length h. q \<noteq> p \<longrightarrow> deref h' q = deref h q"
    using eq new by (simp add: deref_def nth_append)
  show ?thesis
    using i a b c w(1) childrenOf_setChildren [OF par(2)] by (intro exI [of _ w] exI [of _ kids]) simp
qed

lemma applyThemeAST_docA:
  "applyThemeAST fromHtmlW docA 2 [(Default, ''<svg></svg>'')] ''mermaid-536b8b06'' [0, 1] None
     = Inr docA_rewritten"
  by (simp add: rewrite_defs docA_def docA_rewritten_def)

theorem applyThemeAST_in_place_witness:
  "applyThemeAST fromHtmlW docA 2 [(Default, ''<svg></svg>'')] ''mermaid-536b8b06'' [0, 1] None
     = Inr docA_rewritten
   \<and> resolveTarget docA 2 [0, 1] = (1, Some 0)
   \<and> deref docA 0 = Some (Root [1]) \<and> childrenOf (Root [1]) = Some [1] \<and> indexOf [1] (1::nat) = Some 0
   \<and> (\<exists>w kids. deref docA_rewritten 0 = Some (setChildren (Root [1]) ([1][0 := w]))
          \<and> length docA \<le> w
          \<and> deref docA_rewritten w = Some (Element ''div''
                [(''className'', PList [''mermaid-wrapper'']), (''id'', PStr ''mermaid-536b8b06'')] kids))
   \<and> deref docA_rewritten 1 = deref docA 1
   \<and> deref docA_rewritten 2 = deref docA 2
   \<and> deref docA_rewritten 3 = deref docA 3"
proof -
  have tgt: "resolveTarget docA 2 [0, 1] = (1, Some 0)"
    by (simp add: rewrite_defs docA_def)
  have par: "deref docA 0 = Some (Root [1])" "childrenOf (Root [1]) = Some [1]"
    by (simp_all add: deref_def docA_def)
  have idx: "indexOf [1] (1::nat) = Some 0" by simp
  from applyThemeAST_in_place [OF applyThemeAST_docA tgt par idx]
  obtain w kids where c: "deref docA_rewritten 0 = Some (setChildren (Root [1]) ([1][0 := w]))"
      "length docA \<le> w"
      "deref docA_rewritten w = Some (Element ''div''
                [(''className'', PList [''mermaid-wrapper'']), (''id'', PStr ''mermaid-536b8b06'')] kids)"
      "\<forall>q < length docA. q \<noteq> 0 \<longrightarrow> deref docA_rewritten q = deref docA q"
    by blast
  have len: "length docA = 4" by (simp add: docA_def)
  from c(4) len have frame: "deref docA_rewritten 1 = deref docA 1"
      "deref docA_rewritten 2 = deref docA 2" "deref docA_rewritten 3 = deref docA 3"
    by simp_all
  from c(1,2,3) have "\<exists>w kids. deref docA_rewritten 0 = Some (setChildren (Root [1]) ([1][0 := w]))
          \<and> length docA \<le> w
          \<and> deref docA_rewritten w = Some (Element ''div''
                [(''className'', PList [''mermaid-wrapper'']), (''id'', PStr ''mermaid-536b8b06'')] kids)"
    by blast
  then show ?thesis
    using applyThemeAST_docA tgt par idx frame by blast
qed

text \<open>Which node is replaced, and where, by the shape of the chain of ancestors.\<close>

lemma resolveTarget_pre:
  "isPre h p \<Longrightarrow> resolveTarget h r (a @ [g, p]) = (p, Some g)"
  by (auto simp: resolveTarget_def isPre_def jsAt_def nth_append split: option.splits node.splits)

lemma resolveTarget_other:
  "\<not> isPre h p \<Longrightarrow> resolveTarget h r (a @ [p]) = (r, Some p)"
  by (auto simp: resolveTarget_def isPre_def jsAt_def nth_append split: option.splits node.splits)

lemma replaceChild_spliced:
  assumes par: "deref h p = Some pn" "childrenOf pn = Some cs" and idx: "indexOf cs t = Some i"
  shows "\<exists>w kids. length h \<le> w
           \<and> deref (replaceChild h (Some p) t (wrapperOf ident divs)) w = Some (Element ''div''
                 [(''className'', PList [''mermaid-wrapper'']), (''id'', PStr ident)] kids)
           \<and> deref (replaceChild h (Some p) t (wrapperOf ident divs)) p = Some (setChildren pn (cs[i := w]))
           \<and> (\<forall>q < length h. q \<noteq> p \<longrightarrow> deref (replaceChild h (Some p) t (wrapperOf ident divs)) q = deref h q)"
proof -
  let ?h' = "replaceChild h (Some p) t (wrapperOf ident divs)"
  obtain w h1 where al: "alloc (wrapperOf ident divs) h = (w, h1)" by (cases "alloc (wrapperOf ident divs) h")
  from alloc_extends(1) [OF al] obtain new where new: "h1 = h @ new" "new \<noteq> []" "w = length h1 - 1"
    by blast
  from al alloc_root [of "''div''" _ divs h w h1] obtain kids where
    w: "length h \<le> w" "w < length h1"
       "h1 ! w = Element ''div'' [(''className'', PList [''mermaid-wrapper'']), (''id'', PStr ident)] kids"
    by (auto simp: wrapperOf_def)
  from par have p: "p < length h" "h ! p = pn" by (auto simp: deref_def split: if_splits)
  have eq: "?h' = h1[p := setChildren pn (cs[i := w])]"
    using replaceChild_found [OF par idx, of "wrapperOf ident divs"] al by simp
  have a: "deref ?h' p = Some (setChildren pn (cs[i := w]))"
    using eq p new by (simp add: deref_def)
  have b: "deref ?h' w = Some (Element ''div''
                 [(''className'', PList [''mermaid-wrapper'']), (''id'', PStr ident)] kids)"
    using eq w p by (simp add: deref_def)
  have c: "\<forall>q < length h. q \<noteq> p \<longrightarrow> deref ?h' q = deref h q"
    using eq new by (simp add: deref_def nth_append)
  from w(1) a b c show ?thesis by blast
qed

text \<open>
  C3. If the last ancestor \<open>p\<close> is a \<^verbatim>\<open>pre\<close> element, that parent is the node to replace and
  the ancestor \<open>g\<close> before it is where it is replaced: when \<open>p\<close> is at index \<open>i\<close> of the
  children of \<open>g\<close>, the rewrite returns a store in which index \<open>i\<close> of the children of \<open>g\<close>
  holds a new cell, the wrapper, and every other cell that was there is as before, so \<open>p\<close>
  keeps the diagram node among its own children. Otherwise the diagram node \<open>r\<close> is the node
  to replace and the last ancestor \<open>p\<close> is where: when \<open>r\<close> is at index \<open>i\<close> of the children of
  \<open>p\<close>, the store returned has the wrapper at that index of the children of \<open>p\<close>.
\<close>

theorem applyThemeAST_target:
  assumes divs: "themeDivs fromHtml ident classNames svgByTheme = Inr divs"
  shows "(ancestors = a @ [g, p] \<and> isPre h p \<and> deref h g = Some gn \<and> childrenOf gn = Some cs
            \<and> indexOf cs p = Some i \<longrightarrow>
            resolveTarget h r ancestors = (p, Some g) \<and> cs ! i = p \<and>
            (\<exists>h' w kids. applyThemeAST fromHtml h r svgByTheme ident ancestors classNames = Inr h'
               \<and> length h \<le> w
               \<and> deref h' w = Some (Element ''div''
                     [(''className'', PList [''mermaid-wrapper'']), (''id'', PStr ident)] kids)
               \<and> deref h' g = Some (setChildren gn (cs[i := w]))
               \<and> childrenOf (setChildren gn (cs[i := w])) = Some (cs[i := w])
               \<and> (\<forall>q < length h. q \<noteq> g \<longrightarrow> deref h' q = deref h q))) \<and>
         (ancestors = a @ [p] \<and> \<not> isPre h p \<and> deref h p = Some pn \<and> childrenOf pn = Some cs
            \<and> indexOf cs r = Some i \<longrightarrow>
            resolveTarget h r ancestors = (r, Some p) \<and> cs ! i = r \<and>
            (\<exists>h' w kids. applyThemeAST fromHtml h r svgByTheme ident ancestors classNames = Inr h'
               \<and> length h \<le> w
               \<and> deref h' w = Some (Element ''div''
                     [(''className'', PList [''mermaid-wrapper'']), (''id'', PStr ident)] kids)
               \<and> deref h' p = Some (setChildren pn (cs[i := w]))
               \<and> childrenOf (setChildren pn (cs[i := w])) = Some (cs[i := w])
               \<and> (\<forall>q < length h. q \<noteq> p \<longrightarrow> deref h' q = deref h q)))"
proof (intro conjI impI)
  assume A: "ancestors = a @ [g, p] \<and> isPre h p \<and> deref h g = Some gn \<and> childrenOf gn = Some cs
            \<and> indexOf cs p = Some i"
  then have rt: "resolveTarget h r ancestors = (p, Some g)" by (simp add: resolveTarget_pre)
  then show "resolveTarget h r ancestors = (p, Some g)" .
  from A indexOf_Some [of cs p i] show "cs ! i = p" by simp
  from rt divs have ap: "applyThemeAST fromHtml h r svgByTheme ident ancestors classNames
      = Inr (replaceChild h (Some g) p (wrapperOf ident divs))"
    by (simp add: applyThemeAST_def)
  from A have par: "deref h g = Some gn" "childrenOf gn = Some cs" "indexOf cs p = Some i" by simp_all
  from replaceChild_spliced [OF par, of ident divs] ap childrenOf_setChildren [OF par(2)]
  show "\<exists>h' w kids. applyThemeAST fromHtml h r svgByTheme ident ancestors classNames = Inr h'
               \<and> length h \<le> w
               \<and> deref h' w = Some (Element ''div''
                     [(''className'', PList [''mermaid-wrapper'']), (''id'', PStr ident)] kids)
               \<and> deref h' g = Some (setChildren gn (cs[i := w]))
               \<and> childrenOf (setChildren gn (cs[i := w])) = Some (cs[i := w])
               \<and> (\<forall>q < length h. q \<noteq> g \<longrightarrow> deref h' q = deref h q)"
    by auto
next
  assume B: "ancestors = a @ [p] \<and> \<not> isPre h p \<and> deref h p = Some pn \<and> childrenOf pn = Some cs
            \<and> indexOf cs r = Some i"
  then have rt: "resolveTarget h r ancestors = (r, Some p)" by (simp add: resolveTarget_other)
  then show "resolveTarget h r ancestors = (r, Some p)" .
  from B indexOf_Some [of cs r i] show "cs ! i = r" by simp
  from rt divs have ap: "applyThemeAST fromHtml h r svgByTheme ident ancestors classNames
      = Inr (replaceChild h (Some p) r (wrapperOf ident divs))"
    by (simp add: applyThemeAST_def)
  from B have par: "deref h p = Some pn" "childrenOf pn = Some cs" "indexOf cs r = Some i" by simp_all
  from replaceChild_spliced [OF par, of ident divs] ap childrenOf_setChildren [OF par(2)]
  show "\<exists>h' w kids. applyThemeAST fromHtml h r svgByTheme ident ancestors classNames = Inr h'
               \<and> length h \<le> w
               \<and> deref h' w = Some (Element ''div''
                     [(''className'', PList [''mermaid-wrapper'']), (''id'', PStr ident)] kids)
               \<and> deref h' p = Some (setChildren pn (cs[i := w]))
               \<and> childrenOf (setChildren pn (cs[i := w])) = Some (cs[i := w])
               \<and> (\<forall>q < length h. q \<noteq> p \<longrightarrow> deref h' q = deref h q)"
    by auto
qed

theorem applyThemeAST_target_witness:
  "themeDivs fromHtmlW ''mermaid-536b8b06'' None [(Default, ''<svg></svg>'')] = Inr [divDefault]
   \<and> [0, 1] = [] @ [0, 1::nat] \<and> isPre docA 1
   \<and> deref docA 0 = Some (Root [1]) \<and> childrenOf (Root [1]) = Some [1] \<and> indexOf [1] (1::nat) = Some 0
   \<and> resolveTarget docA 2 [0, 1] = (1, Some 0)
   \<and> (\<exists>h' w kids.
        applyThemeAST fromHtmlW docA 2 [(Default, ''<svg></svg>'')] ''mermaid-536b8b06'' [0, 1] None = Inr h'
        \<and> length docA \<le> w
        \<and> deref h' w = Some (Element ''div''
              [(''className'', PList [''mermaid-wrapper'']), (''id'', PStr ''mermaid-536b8b06'')] kids)
        \<and> deref h' 0 = Some (Root [w])
        \<and> deref h' 1 = deref docA 1)
   \<and> [0, 1, 2] = [0, 1] @ [2::nat] \<and> \<not> isPre docN 2
   \<and> deref docN 2 = Some (Element ''code'' [(''className'', PList [''language-js''])] [3])
   \<and> childrenOf (Element ''code'' [(''className'', PList [''language-js''])] [3]) = Some [3]
   \<and> indexOf [3] (3::nat) = Some 0
   \<and> resolveTarget docN 3 [0, 1, 2] = (3, Some 2)
   \<and> (\<exists>h' w kids.
        applyThemeAST fromHtmlW docN 3 [(Default, ''<svg></svg>'')] ''mermaid-536b8b06'' [0, 1, 2] None = Inr h'
        \<and> length docN \<le> w
        \<and> deref h' w = Some (Element ''div''
              [(''className'', PList [''mermaid-wrapper'']), (''id'', PStr ''mermaid-536b8b06'')] kids)
        \<and> deref h' 2 = Some (Element ''code'' [(''className'', PList [''language-js''])] [w])
        \<and> deref h' 1 = deref docN 1)"
proof -
  have divs: "themeDivs fromHtmlW ''mermaid-536b8b06'' None [(Default, ''<svg></svg>'')] = Inr [divDefault]"
    by (simp add: themeDivs_def parseSvg_def fromHtmlW_def divDefault_def)
  have a: "[0, 1] = [] @ [0, 1::nat] \<and> isPre docA 1
      \<and> deref docA 0 = Some (Root [1]) \<and> childrenOf (Root [1]) = Some [1] \<and> indexOf [1] (1::nat) = Some 0"
    by (simp add: isPre_def deref_def docA_def)
  have b: "[0, 1, 2] = [0, 1] @ [2::nat] \<and> \<not> isPre docN 2
      \<and> deref docN 2 = Some (Element ''code'' [(''className'', PList [''language-js''])] [3])
      \<and> childrenOf (Element ''code'' [(''className'', PList [''language-js''])] [3]) = Some [3]
      \<and> indexOf [3] (3::nat) = Some 0"
    by (simp add: isPre_def deref_def docN_def)
  have la: "(1::nat) < length docA" "1 \<noteq> (0::nat)" by (simp_all add: docA_def)
  have lb: "(1::nat) < length docN" "1 \<noteq> (2::nat)" by (simp_all add: docN_def)
  note inst1 = applyThemeAST_target [OF divs, where ancestors = "[0, 1]" and a = "[]" and g = 0 and p = 1
      and h = docA and r = 2 and gn = "Root [1]" and cs = "[1]" and i = 0, THEN conjunct1, rule_format, OF a]
  note inst2 = applyThemeAST_target [OF divs, where ancestors = "[0, 1, 2]" and a = "[0, 1]" and p = 2
      and h = docN and r = 3 and pn = "Element ''code'' [(''className'', PList [''language-js''])] [3]"
      and cs = "[3]" and i = 0, THEN conjunct2, rule_format, OF b]
  from inst1 la have c: "resolveTarget docA 2 [0, 1] = (1, Some 0)
   \<and> (\<exists>h' w kids.
        applyThemeAST fromHtmlW docA 2 [(Default, ''<svg></svg>'')] ''mermaid-536b8b06'' [0, 1] None = Inr h'
        \<and> length docA \<le> w
        \<and> deref h' w = Some (Element ''div''
              [(''className'', PList [''mermaid-wrapper'']), (''id'', PStr ''mermaid-536b8b06'')] kids)
        \<and> deref h' 0 = Some (Root [w])
        \<and> deref h' 1 = deref docA 1)"
    by fastforce
  from inst2 lb have d: "resolveTarget docN 3 [0, 1, 2] = (3, Some 2)
   \<and> (\<exists>h' w kids.
        applyThemeAST fromHtmlW docN 3 [(Default, ''<svg></svg>'')] ''mermaid-536b8b06'' [0, 1, 2] None = Inr h'
        \<and> length docN \<le> w
        \<and> deref h' w = Some (Element ''div''
              [(''className'', PList [''mermaid-wrapper'']), (''id'', PStr ''mermaid-536b8b06'')] kids)
        \<and> deref h' 2 = Some (Element ''code'' [(''className'', PList [''language-js''])] [w])
        \<and> deref h' 1 = deref docN 1)"
    by fastforce
  from divs a b c d show ?thesis by simp
qed

text \<open>
  C6. When the target is not among the children of the splice parent, the rewrite returns
  the store unchanged. Its only error is the one raised while the containers are built,
  before the target is looked up; the miss itself raises none.
\<close>

theorem applyThemeAST_miss:
  assumes tgt: "resolveTarget h r ancestors = (targetNode, Some p)"
    and par: "deref h p = Some pn" "childrenOf pn = Some cs"
    and miss: "targetNode \<notin> set cs"
  shows "replaceChild h (Some p) targetNode wrapper = h
         \<and> (themeDivs fromHtml ident classNames svgByTheme = Inr divs \<longrightarrow>
              applyThemeAST fromHtml h r svgByTheme ident ancestors classNames = Inr h)
         \<and> applyThemeAST fromHtml h r svgByTheme ident ancestors classNames
             = (case themeDivs fromHtml ident classNames svgByTheme of Inl e \<Rightarrow> Inl e | Inr divs \<Rightarrow> Inr h)"
  using tgt replaceChild_missing [OF par miss]
  by (auto simp: applyThemeAST_def split: sum.splits)

theorem applyThemeAST_miss_witness:
  "resolveTarget docP_rewritten 4 [0, 1] = (1, Some 0)
   \<and> deref docP_rewritten 0 = Some (Root [8]) \<and> childrenOf (Root [8]) = Some [8] \<and> (1::nat) \<notin> set [8]
   \<and> themeDivs fromHtmlW ''mermaid-39b03fd0'' None [(Default, ''<svg></svg>'')]
       = Inr [HElement ''div''
               [(''id'', PStr ''mermaid-default-mermaid-39b03fd0''),
                (''className'', PList [''mermaid'', ''mermaid-default'']),
                (''style'', PStr ''display: block;'')]
               [HElement ''svg'' [] []]]
   \<and> applyThemeAST fromHtmlW docP_rewritten 4 [(Default, ''<svg></svg>'')] ''mermaid-39b03fd0'' [0, 1] None
       = Inr docP_rewritten"
proof -
  have tgt: "resolveTarget docP_rewritten 4 [0, 1] = (1, Some 0)"
    by (simp add: rewrite_defs docP_rewritten_def)
  have par: "deref docP_rewritten 0 = Some (Root [8])" "childrenOf (Root [8]) = Some [8]"
    by (simp_all add: deref_def docP_rewritten_def)
  have miss: "(1::nat) \<notin> set [8]" by simp
  have divs: "themeDivs fromHtmlW ''mermaid-39b03fd0'' None [(Default, ''<svg></svg>'')]
       = Inr [HElement ''div''
               [(''id'', PStr ''mermaid-default-mermaid-39b03fd0''),
                (''className'', PList [''mermaid'', ''mermaid-default'']),
                (''style'', PStr ''display: block;'')]
               [HElement ''svg'' [] []]]"
    by (simp add: themeDivs_def parseSvg_def fromHtmlW_def)
  from applyThemeAST_miss [OF tgt par miss, where fromHtml = fromHtmlW and ident = "''mermaid-39b03fd0''"
      and classNames = None and svgByTheme = "[(Default, ''<svg></svg>'')]"] divs
  have "applyThemeAST fromHtmlW docP_rewritten 4 [(Default, ''<svg></svg>'')] ''mermaid-39b03fd0'' [0, 1] None
       = Inr docP_rewritten"
    by blast
  then show ?thesis using tgt par miss divs by blast
qed

text \<open>
  The store of this example is what the transformer makes of \<open>docP\<close>: the first diagram
  replaces the \<^verbatim>\<open>pre\<close>, and the second one, which has the same target, misses it.
\<close>

lemma visitParents_docP:
  "visitParents mdw toTextW 4 0 [] (docP, [])
     = Some ([Root [1], Element ''pre'' [] [2, 4],
           Element ''code'' [(''className'', PList [''language-mermaid'']), (''id'', PStr ''mermaid-536b8b06'')] [3],
           Text ''graph TD; A-->B;'',
           Element ''code'' [(''className'', PList [''language-mermaid'']), (''id'', PStr ''mermaid-39b03fd0'')] [5],
           Text ''graph LR; X-->Y;''],
          [\<lparr>dDiagram = ''graph TD; A-->B;'', dId = ''mermaid-536b8b06'', dNode = 2, dAncestors = [0, 1]\<rparr>,
           \<lparr>dDiagram = ''graph LR; X-->Y;'', dId = ''mermaid-39b03fd0'', dNode = 4, dAncestors = [0, 1]\<rparr>])"
  by code_simp

lemma rehypeMermaidCLI_docP:
  "map_option (fst \<circ> snd) (rehypeMermaidCLI okRun mdw ''/tmp'' fromHtmlW toTextW None 4 0 (docP, emptyWorld))
     = Some docP_rewritten"
  by (simp add: rehypeMermaidCLI_def resolveOptions_def defaultOptions_def visitParents_docP
        processDiagram_def fromEntries_def rewrite_defs world_defs okRun_def docP_rewritten_def)

subsection \<open>The theme containers\<close>




text \<open>A theme that is listed twice is one key, at its first place and with its last value.\<close>

lemma fromEntries_repeated_key:
  "fromEntries [(Dark, ''a''), (Default, ''b''), (Dark, ''c'')] = [(Dark, ''c''), (Default, ''b'')]"
  by (simp add: fromEntries_def)











text \<open>
  C9. When the first node of the parsed fragment is an \<^verbatim>\<open>svg\<close> element: without class names
  (absent or empty) the fragment is returned as parsed; with class names, they are appended,
  in order, to the class list of that element (to the empty list if it has none), and
  nothing else changes.
\<close>

theorem parseSvg_classNames:
  assumes root: "fromHtml svgContent = HElement ''svg'' props kids # rest"
  shows "(classNames = None \<or> classNames = Some [] \<longrightarrow>
            parseSvg fromHtml svgContent classNames = Inr (HElement ''svg'' props kids # rest)) \<and>
         (classNames = Some extra \<and> extra \<noteq> [] \<and> map_of props ''className'' = Some (PList className) \<longrightarrow>
            parseSvg fromHtml svgContent classNames
              = Inr (HElement ''svg'' (AList.update ''className'' (PList (className @ extra)) props) kids # rest)
            \<and> map_of (AList.update ''className'' (PList (className @ extra)) props) ''className''
              = Some (PList (className @ extra))) \<and>
         (classNames = Some extra \<and> extra \<noteq> [] \<and> map_of props ''className'' = None \<longrightarrow>
            parseSvg fromHtml svgContent classNames
              = Inr (HElement ''svg'' (AList.update ''className'' (PList extra) props) kids # rest)
            \<and> map_of (AList.update ''className'' (PList extra) props) ''className'' = Some (PList extra))"
  using root by (auto simp: parseSvg_def update_conv')

theorem parseSvg_classNames_witness:
  "fromHtmlW ''<svg class=\"flowchart\"></svg>'' = HElement ''svg'' [(''className'', PList [''flowchart''])] [] # []
   \<and> parseSvg fromHtmlW ''<svg class=\"flowchart\"></svg>'' None
       = Inr [HElement ''svg'' [(''className'', PList [''flowchart''])] []]
   \<and> parseSvg fromHtmlW ''<svg class=\"flowchart\"></svg>'' (Some [])
       = Inr [HElement ''svg'' [(''className'', PList [''flowchart''])] []]
   \<and> parseSvg fromHtmlW ''<svg class=\"flowchart\"></svg>'' (Some [''mx-auto'', ''h-auto''])
       = Inr [HElement ''svg'' [(''className'', PList [''flowchart'', ''mx-auto'', ''h-auto''])] []]
   \<and> fromHtmlW ''<svg></svg>'' = HElement ''svg'' [] [] # []
   \<and> parseSvg fromHtmlW ''<svg></svg>'' (Some [''mx-auto'', ''h-auto''])
       = Inr [HElement ''svg'' [(''className'', PList [''mx-auto'', ''h-auto''])] []]"
proof -
  have r1: "fromHtmlW ''<svg class=\"flowchart\"></svg>''
              = HElement ''svg'' [(''className'', PList [''flowchart''])] [] # []"
    by (simp add: fromHtmlW_def)
  have r2: "fromHtmlW ''<svg></svg>'' = HElement ''svg'' [] [] # []"
    by (simp add: fromHtmlW_def)
  from parseSvg_classNames [where fromHtml = fromHtmlW and classNames = None, OF r1]
  have a: "parseSvg fromHtmlW ''<svg class=\"flowchart\"></svg>'' None
       = Inr [HElement ''svg'' [(''className'', PList [''flowchart''])] []]"
    by blast
  from parseSvg_classNames [where fromHtml = fromHtmlW and classNames = "Some []", OF r1]
  have b: "parseSvg fromHtmlW ''<svg class=\"flowchart\"></svg>'' (Some [])
       = Inr [HElement ''svg'' [(''className'', PList [''flowchart''])] []]"
    by blast
  from parseSvg_classNames [where fromHtml = fromHtmlW and classNames = "Some [''mx-auto'', ''h-auto'']"
      and extra = "[''mx-auto'', ''h-auto'']" and className = "[''flowchart'']", OF r1]
  have c: "parseSvg fromHtmlW ''<svg class=\"flowchart\"></svg>'' (Some [''mx-auto'', ''h-auto''])
       = Inr [HElement ''svg'' [(''className'', PList [''flowchart'', ''mx-auto'', ''h-auto''])] []]"
    by simp
  from parseSvg_classNames [where fromHtml = fromHtmlW and classNames = "Some [''mx-auto'', ''h-auto'']"
      and extra = "[''mx-auto'', ''h-auto'']", OF r2]
  have d: "parseSvg fromHtmlW ''<svg></svg>'' (Some [''mx-auto'', ''h-auto''])
       = Inr [HElement ''svg'' [(''className'', PList [''mx-auto'', ''h-auto''])] []]"
    by simp
  show ?thesis using r1 r2 a b c d by blast
qed

text \<open>
  The earlier copy of \<^verbatim>\<open>parseSvg\<close> is the current one called with the one class \<^verbatim>\<open>mx-auto\<close>;
  the tests of the current file say that no class is added when none is configured.
\<close>

lemma parseSvg_earlier_eq:
  "parseSvg_earlier fromHtml svgContent = parseSvg fromHtml svgContent (Some [''mx-auto''])"
proof (cases "fromHtml svgContent")
  case Nil
  then show ?thesis by (simp add: parseSvg_earlier_def parseSvg_def)
next
  case (Cons svgElement rest)
  then show ?thesis by (cases svgElement) (simp_all add: parseSvg_earlier_def parseSvg_def)
qed





text \<open>The whole transformer on \<open>docA\<close> with an empty theme list.\<close>

lemma visitParents_docA:
  "visitParents mdw toTextW 4 0 [] (docA, [])
     = Some ([Root [1], Element ''pre'' [] [2],
           Element ''code'' [(''className'', PList [''language-mermaid'']), (''id'', PStr ''mermaid-536b8b06'')] [3],
           Text ''graph TD; A-->B;''],
          [\<lparr>dDiagram = ''graph TD; A-->B;'', dId = ''mermaid-536b8b06'', dNode = 2, dAncestors = [0, 1]\<rparr>])"
  by code_simp

lemma rehypeMermaidCLI_docA_no_themes:
  "map_option (\<lambda>res. (fst res, fst (snd res), invocations (snd (snd res))))
     (rehypeMermaidCLI okRun mdw ''/tmp'' fromHtmlW toTextW
        (Some \<lparr>renderThemes = [], svgClassNames = None, puppeteerConfig = None\<rparr>) 4 0 (docA, emptyWorld))
     = Some (None,
             [Root [4], Element ''pre'' [] [2],
              Element ''code'' [(''className'', PList [''language-mermaid'']), (''id'', PStr ''mermaid-536b8b06'')] [3],
              Text ''graph TD; A-->B;'',
              Element ''div'' [(''className'', PList [''mermaid-wrapper'']), (''id'', PStr ''mermaid-536b8b06'')] []],
             [])"
  by (simp add: pipeline_defs visitParents_docA)

subsection \<open>Selection and what the transformer leaves alone\<close>

lemma isMermaidCode_iff:
  "isMermaidCode n =
     (\<exists>props cs className. n = Element ''code'' props cs
        \<and> map_of props ''className'' = Some (PList className)
        \<and> ''language-mermaid'' \<in> set className)"
proof (cases n)
  case (Element tagName props cs)
  show ?thesis
  proof (cases "map_of props ''className''")
    case None
    with Element show ?thesis by (simp add: isMermaidCode_def)
  next
    case (Some v)
    with Element show ?thesis by (cases v) (auto simp: isMermaidCode_def)
  qed
qed (simp_all add: isMermaidCode_def)

lemma isDiagramBlock_iff: "isDiagramBlock h q = (\<exists>n. deref h q = Some n \<and> isMermaidCode n)"
  unfolding isDiagramBlock_def isMermaidCode_iff by blast

lemma below_trans: "below h a b \<Longrightarrow> below h b c \<Longrightarrow> below h a c"
  by (induction rule: below.induct) (auto intro: below.down)

lemma below_valid: "below h r q \<Longrightarrow> q < length h"
  by (induction rule: below.induct) auto

lemma cellRel_refl: "cellRel n n"
  by (simp add: cellRel_def)

lemma cellRel_children: "cellRel n n' \<Longrightarrow> childrenOf n' = childrenOf n"
  by (auto simp: cellRel_def)

lemma cellRel_mermaid: "cellRel n n' \<Longrightarrow> isMermaidCode n' = isMermaidCode n"
  by (auto simp: cellRel_def isMermaidCode_def)

lemma cellRel_other: "cellRel n n' \<Longrightarrow> \<not> isMermaidCode n \<Longrightarrow> n' = n"
  by (auto simp: cellRel_def)

lemma cellRel_trans: "cellRel a b \<Longrightarrow> cellRel b c \<Longrightarrow> cellRel a c"
  by (auto simp: cellRel_def)

lemma sameDoc_refl: "sameDoc h h"
  by (simp add: sameDoc_def cellRel_refl)

lemma sameDoc_deref:
  "sameDoc h h' \<Longrightarrow> deref h' r = Some n' \<Longrightarrow> \<exists>n. deref h r = Some n \<and> cellRel n n'"
  by (auto simp: sameDoc_def deref_def split: if_splits)

lemma visitor_inv:
  assumes v: "visitor md5hex toText r parents (h0, ds) = (h0', ds')" and sd: "sameDoc h h0"
  shows "sameDoc h h0'"
    and "\<exists>new. ds' = ds @ new \<and> (\<forall>d \<in> set new. dNode d = r \<and> dAncestors d = parents
            \<and> r < length h \<and> isMermaidCode (h ! r))"
    and "r < length h \<Longrightarrow> isMermaidCode (h ! r) \<Longrightarrow> r \<in> dNode ` set ds'"
proof -
  show "sameDoc h h0'"
  proof (cases "deref h0 r")
    case None
    with v sd show ?thesis by (simp add: visitor_def)
  next
    case (Some n0)
    then have r: "r < length h0" "h0 ! r = n0" by (auto simp: deref_def split: if_splits)
    show ?thesis
    proof (cases "isMermaidCode n0")
      case False
      with v sd Some show ?thesis by (auto simp: visitor_def split: node.splits)
    next
      case True
      then obtain tagName props cs where n0: "n0 = Element tagName props cs"
        by (cases n0) (auto simp: isMermaidCode_def)
      with v Some True have h0': "h0' = h0[r := Element tagName (AList.update ''id'' (PStr (getDiagramId md5hex (toText h0 r))) props) cs]"
        by (simp add: visitor_def Let_def)
      have "cellRel n0 (Element tagName (AList.update ''id'' (PStr (getDiagramId md5hex (toText h0 r))) props) cs)"
        using True n0 by (simp add: cellRel_def update_conv')
      with sd r h0' show ?thesis
        by (auto simp: sameDoc_def nth_list_update intro: cellRel_trans)
    qed
  qed
next
  show "\<exists>new. ds' = ds @ new \<and> (\<forall>d \<in> set new. dNode d = r \<and> dAncestors d = parents
            \<and> r < length h \<and> isMermaidCode (h ! r))"
  proof (cases "deref h0 r")
    case None
    with v show ?thesis by (simp add: visitor_def)
  next
    case (Some n0)
    from sameDoc_deref [OF sd Some] obtain n where n: "deref h r = Some n" "cellRel n n0" by blast
    then have r: "r < length h" "h ! r = n" by (auto simp: deref_def split: if_splits)
    from n(2) have m: "isMermaidCode n0 = isMermaidCode n" by (rule cellRel_mermaid)
    show ?thesis
      using v Some r m by (cases n0) (auto simp: visitor_def Let_def)
  qed
next
  assume r: "r < length h" and mer: "isMermaidCode (h ! r)"
  from sd r have "cellRel (h ! r) (h0 ! r)" "r < length h0" by (auto simp: sameDoc_def)
  with mer have "isMermaidCode (h0 ! r)" "deref h0 r = Some (h0 ! r)"
    by (auto simp: cellRel_mermaid deref_def)
  with v show "r \<in> dNode ` set ds'"
    by (cases "h0 ! r") (auto simp: visitor_def Let_def isMermaidCode_def)
qed

lemma visit_inv:
  "visitParents md5hex toText fuel r parents s = Some s' \<Longrightarrow> sameDoc h (fst s) \<Longrightarrow>
     (\<forall>a \<in> set parents. \<forall>q. below h r q \<longrightarrow> below h a q) \<Longrightarrow>
     sameDoc h (fst s') \<and> (\<exists>new. snd s' = snd s @ new \<and> (\<forall>d \<in> set new. found h d \<and> below h r (dNode d)))"
  "visitChildren md5hex toText fuel cs grandparents s = Some s' \<Longrightarrow> sameDoc h (fst s) \<Longrightarrow>
     (\<forall>a \<in> set grandparents. \<forall>c \<in> set cs. \<forall>q. below h c q \<longrightarrow> below h a q) \<Longrightarrow>
     sameDoc h (fst s') \<and> (\<exists>new. snd s' = snd s @ new \<and>
        (\<forall>d \<in> set new. found h d \<and> (\<exists>c \<in> set cs. below h c (dNode d))))"
proof (induction md5hex toText fuel r parents s and md5hex toText fuel cs grandparents s
         arbitrary: s' and s' rule: visitParents_visitChildren.induct)
  case (1 md5hex toText r parents s)
  then show ?case by simp
next
  case (2 md5hex toText fuel r parents s)
  obtain h0 ds where s: "s = (h0, ds)" by (cases s)
  obtain h1 ds1 where s1: "visitor md5hex toText r parents s = (h1, ds1)"
    by (cases "visitor md5hex toText r parents s")
  from "2.prems"(2) s have sd0: "sameDoc h h0" by simp
  note vi = visitor_inv [OF s1 [unfolded s] sd0]
  from vi(2) obtain new1 where new1: "ds1 = ds @ new1"
    "\<forall>d \<in> set new1. dNode d = r \<and> dAncestors d = parents \<and> r < length h \<and> isMermaidCode (h ! r)"
    by blast
  have f1: "\<forall>d \<in> set new1. found h d \<and> below h r (dNode d)"
    using new1(2) "2.prems"(3) by (auto simp: found_def intro: below.here)
  show ?case
  proof (cases "deref h1 r")
    case None
    with "2.prems"(1) s1 have "s' = (h1, ds1)" by (simp add: Let_def)
    with vi(1) new1(1) f1 s show ?thesis by simp
  next
    case (Some n1)
    from sameDoc_deref [OF vi(1) Some] obtain n where n: "deref h r = Some n" "cellRel n n1" by blast
    show ?thesis
    proof (cases "childrenOf n1")
      case None
      with "2.prems"(1) s1 Some have "s' = (h1, ds1)" by (simp add: Let_def)
      with vi(1) new1(1) f1 s show ?thesis by simp
    next
      case (Some cs)
      with n(2) have cs: "childrenOf n = Some cs" by (simp add: cellRel_children)
      from "2.prems"(1) s1 \<open>deref h1 r = Some n1\<close> Some
      have run: "visitChildren md5hex toText fuel cs (parents @ [r]) (h1, ds1) = Some s'"
        by (simp add: Let_def)
      have anc: "\<forall>a \<in> set (parents @ [r]). \<forall>c \<in> set cs. \<forall>q. below h c q \<longrightarrow> below h a q"
        using "2.prems"(3) n(1) cs by (auto intro: below.down)
      from "2.IH" [OF refl _ \<open>childrenOf n1 = Some cs\<close> run [unfolded s1 [symmetric]]]
        \<open>deref h1 r = Some n1\<close> s1 vi(1) anc
      have "sameDoc h (fst s') \<and> (\<exists>new. snd s' = ds1 @ new \<and>
              (\<forall>d \<in> set new. found h d \<and> (\<exists>c \<in> set cs. below h c (dNode d))))"
        by simp
      then obtain new2 where sd: "sameDoc h (fst s')" and new2: "snd s' = ds1 @ new2"
        "\<forall>d \<in> set new2. found h d \<and> (\<exists>c \<in> set cs. below h c (dNode d))"
        by blast
      have f2: "\<forall>d \<in> set new2. found h d \<and> below h r (dNode d)"
        using new2(2) n(1) cs by (blast intro: below.down)
      have "snd s' = snd s @ (new1 @ new2)" using new1(1) new2(1) s by simp
      moreover have "\<forall>d \<in> set (new1 @ new2). found h d \<and> below h r (dNode d)"
        using f1 f2 by auto
      ultimately show ?thesis using sd by blast
    qed
  qed
next
  case (3 md5hex toText fuel grandparents s)
  then show ?case by simp
next
  case (4 md5hex toText fuel c cs grandparents s)
  from "4.prems"(1) obtain s1 where
    one: "visitParents md5hex toText fuel c grandparents s = Some s1"
    and rest: "visitChildren md5hex toText fuel cs grandparents s1 = Some s'"
    by (auto split: option.splits)
  have a1: "\<forall>a \<in> set grandparents. \<forall>q. below h c q \<longrightarrow> below h a q"
    using "4.prems"(3) by simp
  from "4.IH"(1) [OF one "4.prems"(2) a1] obtain new1 where
    sd1: "sameDoc h (fst s1)" and new1: "snd s1 = snd s @ new1"
      "\<forall>d \<in> set new1. found h d \<and> below h c (dNode d)"
    by blast
  have a2: "\<forall>a \<in> set grandparents. \<forall>c \<in> set cs. \<forall>q. below h c q \<longrightarrow> below h a q"
    using "4.prems"(3) by simp
  from "4.IH"(2) [OF one rest sd1 a2] obtain new2 where
    sd2: "sameDoc h (fst s')" and new2: "snd s' = snd s1 @ new2"
      "\<forall>d \<in> set new2. found h d \<and> (\<exists>c \<in> set cs. below h c (dNode d))"
    by blast
  have "snd s' = snd s @ (new1 @ new2)" using new1(1) new2(1) by simp
  moreover have "\<forall>d \<in> set (new1 @ new2). found h d \<and> (\<exists>k \<in> set (c # cs). below h k (dNode d))"
    using new1(2) new2(2) by auto
  ultimately show ?case using sd2 by blast
qed

lemma visit_shape:
  "visitParents md5hex toText fuel r parents s = Some s' \<Longrightarrow> sameDoc h (fst s) \<Longrightarrow>
     sameDoc h (fst s') \<and> set (snd s) \<subseteq> set (snd s')"
  "visitChildren md5hex toText fuel cs grandparents s = Some s' \<Longrightarrow> sameDoc h (fst s) \<Longrightarrow>
     sameDoc h (fst s') \<and> set (snd s) \<subseteq> set (snd s')"
proof (induction md5hex toText fuel r parents s and md5hex toText fuel cs grandparents s
         arbitrary: s' and s' rule: visitParents_visitChildren.induct)
  case (1 md5hex toText r parents s)
  then show ?case by simp
next
  case (2 md5hex toText fuel r parents s)
  obtain h0 ds where s: "s = (h0, ds)" by (cases s)
  obtain h1 ds1 where s1: "visitor md5hex toText r parents s = (h1, ds1)"
    by (cases "visitor md5hex toText r parents s")
  from "2.prems"(2) s have sd0: "sameDoc h h0" by simp
  note vi = visitor_inv [OF s1 [unfolded s] sd0]
  from vi(2) have sub: "set ds \<subseteq> set ds1" by auto
  show ?case
  proof (cases "deref h1 r")
    case None
    with "2.prems"(1) s1 have "s' = (h1, ds1)" by (simp add: Let_def)
    with vi(1) sub s show ?thesis by simp
  next
    case (Some n1)
    show ?thesis
    proof (cases "childrenOf n1")
      case None
      with "2.prems"(1) s1 Some have "s' = (h1, ds1)" by (simp add: Let_def)
      with vi(1) sub s show ?thesis by simp
    next
      case (Some cs)
      from "2.prems"(1) s1 \<open>deref h1 r = Some n1\<close> Some
      have run: "visitChildren md5hex toText fuel cs (parents @ [r]) (h1, ds1) = Some s'"
        by (simp add: Let_def)
      from "2.IH" [OF refl _ Some run [unfolded s1 [symmetric]]] \<open>deref h1 r = Some n1\<close> s1 vi(1)
      have "sameDoc h (fst s') \<and> set ds1 \<subseteq> set (snd s')" by simp
      with sub s show ?thesis by auto
    qed
  qed
next
  case (3 md5hex toText fuel grandparents s)
  then show ?case by simp
next
  case (4 md5hex toText fuel c cs grandparents s)
  from "4.prems"(1) obtain s1 where
    one: "visitParents md5hex toText fuel c grandparents s = Some s1"
    and rest: "visitChildren md5hex toText fuel cs grandparents s1 = Some s'"
    by (auto split: option.splits)
  from "4.IH"(1) [OF one "4.prems"(2)] have a: "sameDoc h (fst s1)" "set (snd s) \<subseteq> set (snd s1)"
    by simp_all
  from "4.IH"(2) [OF one rest a(1)] a(2) show ?case by auto
qed

lemma visit_complete:
  "visitParents md5hex toText fuel r parents s = Some s' \<Longrightarrow> sameDoc h (fst s) \<Longrightarrow>
     below h r q \<Longrightarrow> isMermaidCode (h ! q) \<Longrightarrow> q \<in> dNode ` set (snd s')"
  "visitChildren md5hex toText fuel cs grandparents s = Some s' \<Longrightarrow> sameDoc h (fst s) \<Longrightarrow>
     c \<in> set cs \<Longrightarrow> below h c q \<Longrightarrow> isMermaidCode (h ! q) \<Longrightarrow> q \<in> dNode ` set (snd s')"
proof (induction md5hex toText fuel r parents s and md5hex toText fuel cs grandparents s
         arbitrary: s' and s' c rule: visitParents_visitChildren.induct)
  case (1 md5hex toText r parents s)
  then show ?case by simp
next
  case (2 md5hex toText fuel r parents s)
  obtain h0 ds where s: "s = (h0, ds)" by (cases s)
  obtain h1 ds1 where s1: "visitor md5hex toText r parents s = (h1, ds1)"
    by (cases "visitor md5hex toText r parents s")
  from "2.prems"(2) s have sd0: "sameDoc h h0" by simp
  note vi = visitor_inv [OF s1 [unfolded s] sd0]
  have mono: "set ds1 \<subseteq> set (snd s')"
  proof (cases "deref h1 r")
    case None
    with "2.prems"(1) s1 show ?thesis by (auto simp: Let_def)
  next
    case (Some n1)
    show ?thesis
    proof (cases "childrenOf n1")
      case None
      with "2.prems"(1) s1 Some show ?thesis by (auto simp: Let_def)
    next
      case (Some cs)
      with "2.prems"(1) s1 \<open>deref h1 r = Some n1\<close>
      have "visitChildren md5hex toText fuel cs (parents @ [r]) (h1, ds1) = Some s'"
        by (simp add: Let_def)
      from visit_shape(2) [OF this, of h] vi(1) show ?thesis by simp
    qed
  qed
  from "2.prems"(3) show ?case
  proof (cases rule: below.cases)
    case here
    with vi(3) "2.prems"(4) have "r \<in> dNode ` set ds1" by simp
    with mono here show ?thesis by auto
  next
    case (down n cs k)
    from vi(1) down(1) have r: "r < length h1" "cellRel (h ! r) (h1 ! r)" "h ! r = n"
      by (auto simp: sameDoc_def deref_def split: if_splits)
    then have d1: "deref h1 r = Some (h1 ! r)" and c1: "childrenOf (h1 ! r) = Some cs"
      using down(2) by (simp_all add: deref_def cellRel_children)
    from "2.prems"(1) s1 d1 c1
    have run: "visitChildren md5hex toText fuel cs (parents @ [r]) (h1, ds1) = Some s'"
      by (simp add: Let_def)
    from "2.IH" [OF refl _ c1 run [unfolded s1 [symmetric]] _ down(3,4) "2.prems"(4)] d1 s1 vi(1)
    show ?thesis by simp
  qed
next
  case (3 md5hex toText fuel grandparents s)
  then show ?case by simp
next
  case (4 md5hex toText fuel k ks grandparents s)
  from "4.prems"(1) obtain s1 where
    one: "visitParents md5hex toText fuel k grandparents s = Some s1"
    and rest: "visitChildren md5hex toText fuel ks grandparents s1 = Some s'"
    by (auto split: option.splits)
  from visit_shape(1) [OF one "4.prems"(2)] have sd1: "sameDoc h (fst s1)" by simp
  from visit_shape(2) [OF rest sd1] have mono: "set (snd s1) \<subseteq> set (snd s')" by simp
  show ?case
  proof (cases "c = k")
    case True
    with "4.prems"(4) have "below h k q" by simp
    from "4.IH"(1) [OF one "4.prems"(2) this "4.prems"(5)] have "q \<in> dNode ` set (snd s1)" .
    with mono show ?thesis by auto
  next
    case False
    with "4.prems"(3) have "c \<in> set ks" by simp
    from "4.IH"(2) [OF one rest sd1 this "4.prems"(4,5)] show ?thesis .
  qed
qed

lemma replaceChild_frame:
  "length h \<le> length (replaceChild h pp t wr) \<and>
   (\<forall>q < length h. pp \<noteq> Some q \<longrightarrow> replaceChild h pp t wr ! q = h ! q)"
proof (cases "\<exists>p pn cs i. pp = Some p \<and> deref h p = Some pn \<and> childrenOf pn = Some cs \<and> indexOf cs t = Some i")
  case True
  then obtain p pn cs i where f: "pp = Some p" "deref h p = Some pn" "childrenOf pn = Some cs"
    "indexOf cs t = Some i" by blast
  obtain w h1 where al: "alloc wr h = (w, h1)" by (cases "alloc wr h")
  from alloc_extends(1) [OF al] obtain new where "h1 = h @ new" by blast
  with replaceChild_found [OF f(2,3,4), of wr] al f(1) show ?thesis
    by (simp add: nth_append)
next
  case False
  then have "replaceChild h pp t wr = h"
    by (auto simp: replaceChild_def split: option.splits)
  then show ?thesis by simp
qed

lemma jsAt_member: "jsAt xs i = Some x \<Longrightarrow> x \<in> set xs"
  by (auto simp: jsAt_def split: if_splits)

lemma resolveTarget_parent: "resolveTarget h r ancestors = (t, Some p) \<Longrightarrow> p \<in> set ancestors"
  by (auto simp: resolveTarget_def split: option.splits node.splits if_splits dest: jsAt_member)

lemma applyThemeAST_frame:
  assumes "applyThemeAST fromHtml h r svgByTheme ident ancestors classNames = Inr h'"
  shows "length h \<le> length h' \<and> (\<forall>q < length h. q \<notin> set ancestors \<longrightarrow> h' ! q = h ! q)"
proof -
  obtain t pp where rt: "resolveTarget h r ancestors = (t, pp)" by (cases "resolveTarget h r ancestors")
  from assms rt obtain divs where h': "h' = replaceChild h pp t (wrapperOf ident divs)"
    by (auto simp: applyThemeAST_def split: sum.splits)
  have "pp \<noteq> Some q" if "q \<notin> set ancestors" for q
    using that rt resolveTarget_parent by blast
  with replaceChild_frame [of h pp t "wrapperOf ident divs"] h' show ?thesis by simp
qed

lemma visit_returns:
  "heightBelow h r fuel \<Longrightarrow> sameDoc h (fst s) \<Longrightarrow>
     \<exists>s'. visitParents md5hex toText fuel r parents s = Some s'"
  "(\<forall>c \<in> set cs. heightBelow h c fuel) \<Longrightarrow> sameDoc h (fst s) \<Longrightarrow>
     \<exists>s'. visitChildren md5hex toText fuel cs grandparents s = Some s'"
proof (induction md5hex toText fuel r parents s and md5hex toText fuel cs grandparents s
         rule: visitParents_visitChildren.induct)
  case (1 md5hex toText r parents s)
  then show ?case by simp
next
  case (2 md5hex toText fuel r parents s)
  obtain h0 ds where s: "s = (h0, ds)" by (cases s)
  obtain h1 ds1 where s1: "visitor md5hex toText r parents s = (h1, ds1)"
    by (cases "visitor md5hex toText r parents s")
  from "2.prems"(2) s have sd0: "sameDoc h h0" by simp
  note vi = visitor_inv [OF s1 [unfolded s] sd0]
  show ?case
  proof (cases "deref h1 r")
    case None
    with s1 show ?thesis by (simp add: Let_def)
  next
    case (Some n1)
    from sameDoc_deref [OF vi(1) Some] obtain n where n: "deref h r = Some n" "cellRel n n1" by blast
    show ?thesis
    proof (cases "childrenOf n1")
      case None
      with s1 Some show ?thesis by (simp add: Let_def)
    next
      case (Some cs)
      with n(2) have cs: "childrenOf n = Some cs" by (simp add: cellRel_children)
      with "2.prems"(1) n(1) have kids: "\<forall>c \<in> set cs. heightBelow h c fuel" by simp
      from "2.IH" [OF refl _ Some kids] \<open>deref h1 r = Some n1\<close> s1 vi(1)
      have "\<exists>s'. visitChildren md5hex toText fuel cs (parents @ [r]) (h1, ds1) = Some s'"
        by simp
      with s1 \<open>deref h1 r = Some n1\<close> Some show ?thesis by (simp add: Let_def)
    qed
  qed
next
  case (3 md5hex toText fuel grandparents s)
  then show ?case by simp
next
  case (4 md5hex toText fuel c cs grandparents s)
  from "4.prems"(1) have c: "heightBelow h c fuel" and cs: "\<forall>c \<in> set cs. heightBelow h c fuel"
    by simp_all
  from "4.IH"(1) [OF c "4.prems"(2)] obtain s1 where
    one: "visitParents md5hex toText fuel c grandparents s = Some s1" by blast
  from visit_shape(1) [OF one "4.prems"(2)] have sd1: "sameDoc h (fst s1)" by simp
  from "4.IH"(2) [OF one cs sd1] one show ?case by simp
qed

lemma rehypeMermaidCLI_returns:
  assumes "heightBelow h ast fuel"
  shows "\<exists>res. rehypeMermaidCLI run md5hex tmpDir fromHtml toText given fuel ast (h, w) = Some res"
proof -
  have "sameDoc h (fst (h, [] :: diagramEntry list))" by (simp add: sameDoc_refl)
  from visit_returns(1) [OF assms this, of md5hex toText "[]"] obtain s' where
    "visitParents md5hex toText fuel ast [] (h, []) = Some s'"
    by blast
  then show ?thesis
    by (cases s') (auto simp: rehypeMermaidCLI_def Let_def intro: prod_cases3)
qed

text \<open>Reachability, and the list of the nodes at or below a node.\<close>

lemma below_top: "below h r q \<Longrightarrow> r < length h"
  by (induction rule: below.induct) (auto simp: deref_def split: if_splits)

lemma below_nodesBelow:
  "below h r q \<Longrightarrow> heightBelow h r n \<Longrightarrow> q \<in> set (nodesBelow h n r)"
proof (induction arbitrary: n rule: below.induct)
  case (here r)
  then show ?case by (cases n) (auto simp: deref_def)
next
  case (down r nd cs c q)
  from down.prems obtain m where n: "n = Suc m" by (cases n) auto
  with down.prems down.hyps(1,2,3) have "heightBelow h c m" by auto
  from down.IH [OF this] down.hyps(1,2,3) n show ?case by auto
qed

lemma nodesBelow_below: "q \<in> set (nodesBelow h n r) \<Longrightarrow> below h r q"
proof (induction n arbitrary: r)
  case 0
  then show ?case by simp
next
  case (Suc n)
  show ?case
  proof (cases "deref h r")
    case None
    with Suc.prems show ?thesis by simp
  next
    case (Some nd)
    then have r: "r < length h" by (auto simp: deref_def split: if_splits)
    show ?thesis
    proof (cases "q = r")
      case True
      with r show ?thesis by (auto intro: below.here)
    next
      case False
      with Suc.prems Some obtain cs c where "childrenOf nd = Some cs" "c \<in> set cs"
        "q \<in> set (nodesBelow h n c)"
        by (cases "childrenOf nd") auto
      with Suc.IH Some show ?thesis by (auto intro: below.down)
    qed
  qed
qed

lemma heightBelow_Suc: "heightBelow h r n \<Longrightarrow> heightBelow h r (Suc n)"
proof (induction n arbitrary: r)
  case 0
  then show ?case by simp
next
  case (Suc n)
  show ?case
  proof (cases "deref h r")
    case None
    then show ?thesis by simp
  next
    case nd: (Some nd)
    show ?thesis
    proof (cases "childrenOf nd")
      case None
      with nd show ?thesis by simp
    next
      case (Some cs)
      with Suc.prems nd have "\<forall>c \<in> set cs. heightBelow h c n" by simp
      with Suc.IH have "\<forall>c \<in> set cs. heightBelow h c (Suc n)" by blast
      with Some nd show ?thesis by simp
    qed
  qed
qed

lemma heightBelow_below: "below h r t \<Longrightarrow> heightBelow h r n \<Longrightarrow> heightBelow h t n"
proof (induction arbitrary: n rule: below.induct)
  case (here r)
  then show ?case by simp
next
  case (down r nd cs c q)
  from down.prems obtain m where n: "n = Suc m" by (cases n) auto
  with down.prems down.hyps(1,2,3) have "heightBelow h c m" by auto
  from down.IH [OF this] n show ?case by (simp add: heightBelow_Suc del: heightBelow.simps)
qed

lemma below_code:
  "heightBelow h r n \<Longrightarrow> below h r q = (q \<in> set (nodesBelow h n r))"
  using below_nodesBelow nodesBelow_below by blast

lemma passesThrough_code:
  assumes "heightBelow h ast n"
  shows "passesThrough h ast q =
           (q \<in> set (nodesBelow h n ast)
            \<and> (\<forall>c \<in> set (nodesBelow h n q). \<not> isDiagramBlock h c)
            \<and> (\<forall>t \<in> set (nodesBelow h n ast). q \<in> set (nodesBelow h n t) \<longrightarrow> \<not> isTarget h t))"
proof -
  have hb: "heightBelow h t n" if "below h ast t" for t
    using that assms by (rule heightBelow_below)
  have 1: "below h ast t = (t \<in> set (nodesBelow h n ast))" for t
    using assms by (rule below_code)
  have 2: "below h t q = (q \<in> set (nodesBelow h n t))" if "below h ast t" for t q
    using hb [OF that] by (rule below_code)
  show ?thesis
    unfolding passesThrough_def using 1 2 by blast
qed

text \<open>What discovery records: the last ancestor of a diagram is its parent.\<close>

lemma visit_parent:
  "visitParents md5hex toText fuel r parents s = Some s' \<Longrightarrow> sameDoc h (fst s) \<Longrightarrow>
     (parents \<noteq> [] \<longrightarrow> (\<exists>n cs. deref h (last parents) = Some n \<and> childrenOf n = Some cs \<and> r \<in> set cs)) \<Longrightarrow>
     (\<forall>d \<in> set (snd s). parented h d) \<Longrightarrow> (\<forall>d \<in> set (snd s'). parented h d)"
  "visitChildren md5hex toText fuel cs grandparents s = Some s' \<Longrightarrow> sameDoc h (fst s) \<Longrightarrow>
     (\<exists>n ks. deref h (last grandparents) = Some n \<and> childrenOf n = Some ks \<and> set cs \<subseteq> set ks) \<Longrightarrow>
     grandparents \<noteq> [] \<Longrightarrow>
     (\<forall>d \<in> set (snd s). parented h d) \<Longrightarrow> (\<forall>d \<in> set (snd s'). parented h d)"
proof (induction md5hex toText fuel r parents s and md5hex toText fuel cs grandparents s
         arbitrary: s' and s' rule: visitParents_visitChildren.induct)
  case (1 md5hex toText r parents s)
  then show ?case by simp
next
  case (2 md5hex toText fuel r parents s)
  obtain h0 ds where s: "s = (h0, ds)" by (cases s)
  obtain h1 ds1 where s1: "visitor md5hex toText r parents s = (h1, ds1)"
    by (cases "visitor md5hex toText r parents s")
  from "2.prems"(2) s have sd0: "sameDoc h h0" by simp
  note vi = visitor_inv [OF s1 [unfolded s] sd0]
  from vi(2) obtain new1 where new1: "ds1 = ds @ new1"
    "\<forall>d \<in> set new1. dNode d = r \<and> dAncestors d = parents \<and> r < length h \<and> isMermaidCode (h ! r)"
    by blast
  have p1: "\<forall>d \<in> set ds1. parented h d"
    using new1 "2.prems"(3,4) s by (auto simp: parented_def)
  show ?case
  proof (cases "deref h1 r")
    case None
    with "2.prems"(1) s1 have "s' = (h1, ds1)" by (simp add: Let_def)
    with p1 show ?thesis by simp
  next
    case (Some n1)
    from sameDoc_deref [OF vi(1) Some] obtain n where n: "deref h r = Some n" "cellRel n n1" by blast
    show ?thesis
    proof (cases "childrenOf n1")
      case None
      with "2.prems"(1) s1 Some have "s' = (h1, ds1)" by (simp add: Let_def)
      with p1 show ?thesis by simp
    next
      case (Some cs)
      with n(2) have cs: "childrenOf n = Some cs" by (simp add: cellRel_children)
      from "2.prems"(1) s1 \<open>deref h1 r = Some n1\<close> Some
      have run: "visitChildren md5hex toText fuel cs (parents @ [r]) (h1, ds1) = Some s'"
        by (simp add: Let_def)
      have par: "\<exists>n ks. deref h (last (parents @ [r])) = Some n \<and> childrenOf n = Some ks \<and> set cs \<subseteq> set ks"
        using n(1) cs by auto
      from "2.IH" [OF refl _ \<open>childrenOf n1 = Some cs\<close> run [unfolded s1 [symmetric]] _ par]
        \<open>deref h1 r = Some n1\<close> s1 vi(1) p1
      show ?thesis by simp
    qed
  qed
next
  case (3 md5hex toText fuel grandparents s)
  then show ?case by simp
next
  case (4 md5hex toText fuel c cs grandparents s)
  from "4.prems"(1) obtain s1 where
    one: "visitParents md5hex toText fuel c grandparents s = Some s1"
    and rest: "visitChildren md5hex toText fuel cs grandparents s1 = Some s'"
    by (auto split: option.splits)
  from visit_shape(1) [OF one "4.prems"(2)] have sd1: "sameDoc h (fst s1)" by simp
  have a1: "grandparents \<noteq> [] \<longrightarrow>
      (\<exists>n ks. deref h (last grandparents) = Some n \<and> childrenOf n = Some ks \<and> c \<in> set ks)"
    using "4.prems"(3) by auto
  from "4.IH"(1) [OF one "4.prems"(2) a1 "4.prems"(5)]
  have p1: "\<forall>d \<in> set (snd s1). parented h d" .
  have a2: "\<exists>n ks. deref h (last grandparents) = Some n \<and> childrenOf n = Some ks \<and> set cs \<subseteq> set ks"
    using "4.prems"(3) by auto
  from "4.IH"(2) [OF one rest sd1 a2 "4.prems"(4) p1] show ?case .
qed

text \<open>
  A rewrite replaces, in one list of children, the reference to its target and nothing else,
  and it leaves every tag as it was; its target is a diagram block or a \<^verbatim>\<open>pre\<close> element
  with a diagram block among its children.
\<close>

lemma replaceChild_children:
  assumes p: "p < length h" and cs: "childrenOf (h ! p) = Some cs" and a: "a \<in> set cs" and nt: "a \<noteq> t"
  shows "\<exists>cs'. childrenOf (replaceChild h pp t wr ! p) = Some cs' \<and> a \<in> set cs'"
proof (cases "\<exists>p0 pn ks i. pp = Some p0 \<and> deref h p0 = Some pn \<and> childrenOf pn = Some ks \<and> indexOf ks t = Some i")
  case True
  then obtain p0 pn ks i where f: "pp = Some p0" "deref h p0 = Some pn" "childrenOf pn = Some ks"
    "indexOf ks t = Some i" by blast
  obtain w h1 where al: "alloc wr h = (w, h1)" by (cases "alloc wr h")
  from alloc_extends(1) [OF al] obtain new where new: "h1 = h @ new" by blast
  from f(2) have p0: "p0 < length h" "h ! p0 = pn" by (auto simp: deref_def split: if_splits)
  from replaceChild_found [OF f(2,3,4), of wr] al f(1)
  have eq: "replaceChild h pp t wr = h1[p0 := setChildren pn (ks[i := w])]" by simp
  show ?thesis
  proof (cases "p = p0")
    case True
    with cs p0 f(3) have "ks = cs" by simp
    from indexOf_Some [OF f(4)] have i: "i < length ks" "ks ! i = t" by simp_all
    from a nt i \<open>ks = cs\<close> have "a \<in> set (ks[i := w])"
      by (metis in_set_conv_nth length_list_update nth_list_update_neq)
    with eq True p0 new childrenOf_setChildren [OF f(3)] show ?thesis by simp
  next
    case False
    with eq p new cs a show ?thesis by (simp add: nth_append)
  qed
next
  case False
  then have "replaceChild h pp t wr = h"
    by (auto simp: replaceChild_def split: option.splits)
  with cs a show ?thesis by simp
qed

lemma sameDoc_isPre: "sameDoc h h1 \<Longrightarrow> r < length h \<Longrightarrow> isPre h1 r = isPre h r"
  by (auto simp: sameDoc_def cellRel_def isPre_def deref_def split: node.splits)

lemma setChildren_tag:
  "(case setChildren n cs of Element tagName props ks \<Rightarrow> tagName = ''pre'' | _ \<Rightarrow> False)
     = (case n of Element tagName props ks \<Rightarrow> tagName = ''pre'' | _ \<Rightarrow> False)"
  by (cases n) simp_all

lemma replaceChild_isPre:
  assumes r: "r < length h"
  shows "isPre (replaceChild h pp t wr) r = isPre h r"
proof (cases "\<exists>p pn cs i. pp = Some p \<and> deref h p = Some pn \<and> childrenOf pn = Some cs \<and> indexOf cs t = Some i")
  case True
  then obtain p pn cs i where f: "pp = Some p" "deref h p = Some pn" "childrenOf pn = Some cs"
    "indexOf cs t = Some i" by blast
  obtain w h1 where al: "alloc wr h = (w, h1)" by (cases "alloc wr h")
  from alloc_extends(1) [OF al] obtain new where new: "h1 = h @ new" by blast
  from f(2) have p: "p < length h" "h ! p = pn" by (auto simp: deref_def split: if_splits)
  from replaceChild_found [OF f(2,3,4), of wr] al f(1)
  have eq: "replaceChild h pp t wr = h1[p := setChildren pn (cs[i := w])]" by simp
  show ?thesis
  proof (cases "r = p")
    case True
    with eq p new r show ?thesis by (simp add: isPre_def deref_def setChildren_tag)
  next
    case False
    with eq new r show ?thesis by (simp add: isPre_def deref_def nth_append)
  qed
next
  case False
  then have "replaceChild h pp t wr = h"
    by (auto simp: replaceChild_def split: option.splits)
  then show ?thesis by simp
qed

lemma jsAt_last: "jsAt xs (int (length xs) - 1) = Some x \<Longrightarrow> xs \<noteq> [] \<and> x = last xs"
  by (cases xs rule: rev_cases) (auto simp: jsAt_def nth_append split: if_splits)

lemma resolveTarget_cases:
  assumes "resolveTarget h r ancestors = (t, pp)"
  shows "t = r \<or> (ancestors \<noteq> [] \<and> t = last ancestors \<and> isPre h t)"
proof (cases "jsAt ancestors (int (length ancestors) - 1)")
  case None
  with assms show ?thesis by (simp add: resolveTarget_def)
next
  case (Some p)
  note l = jsAt_last [OF Some]
  show ?thesis
  proof (cases "isPre h p")
    case True
    with assms Some have "t = p"
      by (auto simp: resolveTarget_def isPre_def split: option.splits node.splits if_splits)
    with True l show ?thesis by simp
  next
    case False
    with assms Some have "t = r"
      by (auto simp: resolveTarget_def isPre_def split: option.splits node.splits if_splits)
    then show ?thesis by simp
  qed
qed

lemma found_target:
  assumes rt: "resolveTarget hk (dNode d) (dAncestors d) = (t, pp)"
    and fd: "found h d" "parented h d"
    and pre: "\<forall>r < length h. isPre hk r = isPre h r"
  shows "isTarget h t"
proof -
  from fd(1) have m: "dNode d < length h" "isDiagramBlock h (dNode d)"
    by (auto simp: found_def isDiagramBlock_iff deref_def)
  from resolveTarget_cases [OF rt] show ?thesis
  proof
    assume "t = dNode d"
    with m show ?thesis by (simp add: isTarget_def)
  next
    assume a: "dAncestors d \<noteq> [] \<and> t = last (dAncestors d) \<and> isPre hk t"
    then have "t \<in> set (dAncestors d)" by simp
    with fd(1) have "below h t (dNode d)" by (simp add: found_def)
    then have "t < length h" by (rule below_top)
    moreover from a have "isPre hk t" by blast
    ultimately have "isPre h t" using pre by simp
    moreover from fd(2) a obtain n cs where "deref h t = Some n" "childrenOf n = Some cs"
      "dNode d \<in> set cs" by (auto simp: parented_def)
    ultimately show ?thesis using m(2) by (auto simp: isTarget_def)
  qed
qed

lemma applyThemeAST_step:
  assumes ap: "applyThemeAST fromHtml hk (dNode d) svgByTheme (dId d) (dAncestors d) classNames = Inr h2"
    and fd: "found h d" "parented h d"
    and len: "length h \<le> length hk"
    and pre: "\<forall>r < length h. isPre hk r = isPre h r"
  shows "\<forall>r < length h. isPre h2 r = isPre h r"
    and "p < length hk \<Longrightarrow> childrenOf (hk ! p) = Some cs \<Longrightarrow> a \<in> set cs \<Longrightarrow> \<not> isTarget h a \<Longrightarrow>
           \<exists>cs'. childrenOf (h2 ! p) = Some cs' \<and> a \<in> set cs'"
proof -
  obtain t pp where rt: "resolveTarget hk (dNode d) (dAncestors d) = (t, pp)"
    by (cases "resolveTarget hk (dNode d) (dAncestors d)")
  from ap rt obtain divs where h2: "h2 = replaceChild hk pp t (wrapperOf (dId d) divs)"
    by (auto simp: applyThemeAST_def split: sum.splits)
  show "\<forall>r < length h. isPre h2 r = isPre h r"
    using h2 len pre by (simp add: replaceChild_isPre)
  assume p: "p < length hk" and cs: "childrenOf (hk ! p) = Some cs" and a: "a \<in> set cs"
    and nt: "\<not> isTarget h a"
  from found_target [OF rt fd pre] nt have "a \<noteq> t" by auto
  from replaceChild_children [OF p cs a this] h2
  show "\<exists>cs'. childrenOf (h2 ! p) = Some cs' \<and> a \<in> set cs'" by simp
qed

lemma isTarget_code:
  "isTarget h t =
     (case deref h t of
        None \<Rightarrow> False
      | Some n \<Rightarrow> isMermaidCode n \<or>
          (isPre h t \<and>
           (case childrenOf n of
              None \<Rightarrow> False
            | Some cs \<Rightarrow> \<exists>d \<in> set cs. (case deref h d of None \<Rightarrow> False | Some m \<Rightarrow> isMermaidCode m))))"
  by (auto simp: isTarget_def isDiagramBlock_iff split: option.splits)

text \<open>Every schedule keeps the tags, the edges to nodes that are no targets, and the cells
  that are no ancestors of a diagram.\<close>

lemma rewriteInOrder_Cons:
  "\<exists>h2. rewriteInOrder fromHtml options ((d, res) # sched) hk = rewriteInOrder fromHtml options sched h2
      \<and> (h2 = hk \<or> (\<exists>entries. applyThemeAST fromHtml hk (dNode d) (fromEntries entries) (dId d)
                        (dAncestors d) (svgClassNames options) = Inr h2))"
proof (cases res)
  case None
  then show ?thesis by (intro exI [of _ hk]) simp
next
  case (Some entries)
  then show ?thesis
    by (cases "applyThemeAST fromHtml hk (dNode d) (fromEntries entries) (dId d) (dAncestors d)
             (svgClassNames options)") auto
qed

lemma rewriteInOrder_inv:
  "(\<forall>d \<in> fst ` set sched. found h d \<and> parented h d) \<Longrightarrow> length h \<le> length hk \<Longrightarrow>
   (\<forall>r < length h. isPre hk r = isPre h r) \<Longrightarrow>
     length hk \<le> length (rewriteInOrder fromHtml options sched hk)
     \<and> (\<forall>p < length hk. \<forall>cs a. childrenOf (hk ! p) = Some cs \<and> a \<in> set cs \<and> \<not> isTarget h a \<longrightarrow>
          (\<exists>cs'. childrenOf (rewriteInOrder fromHtml options sched hk ! p) = Some cs' \<and> a \<in> set cs'))
     \<and> (\<forall>q < length hk. (\<forall>d \<in> fst ` set sched. q \<notin> set (dAncestors d)) \<longrightarrow>
          rewriteInOrder fromHtml options sched hk ! q = hk ! q)"
proof (induction sched arbitrary: hk)
  case Nil
  then show ?case by simp
next
  case (Cons x sched)
  obtain d res where x: "x = (d, res)" by (cases x)
  from Cons.prems(1) have rest: "\<forall>d \<in> fst ` set sched. found h d \<and> parented h d" by simp
  from Cons.prems(1) x have fd: "found h d" "parented h d" by simp_all
  from rewriteInOrder_Cons [of fromHtml options d res sched hk] x obtain h2 where
    eq: "rewriteInOrder fromHtml options (x # sched) hk = rewriteInOrder fromHtml options sched h2"
    and h2: "h2 = hk \<or> (\<exists>entries. applyThemeAST fromHtml hk (dNode d) (fromEntries entries) (dId d)
                        (dAncestors d) (svgClassNames options) = Inr h2)"
    by auto
  have len2: "length hk \<le> length h2"
    using h2 applyThemeAST_frame by fastforce
  have pre2: "\<forall>r < length h. isPre h2 r = isPre h r"
    using h2 Cons.prems(3) applyThemeAST_step(1) [OF _ fd Cons.prems(2,3)] by blast
  have ed2: "\<exists>cs'. childrenOf (h2 ! p) = Some cs' \<and> a \<in> set cs'"
    if "p < length hk" "childrenOf (hk ! p) = Some cs" "a \<in> set cs" "\<not> isTarget h a" for p cs a
    using h2 that applyThemeAST_step(2) [OF _ fd Cons.prems(2,3) that] by blast
  have fr2: "h2 ! q = hk ! q" if "q < length hk" "q \<notin> set (dAncestors d)" for q
    using h2 that applyThemeAST_frame by fastforce
  from Cons.prems(2) len2 have "length h \<le> length h2" by simp
  note ih = Cons.IH [OF rest this pre2]
  have a: "length hk \<le> length (rewriteInOrder fromHtml options sched h2)"
    using len2 ih by simp
  have b: "\<exists>cs'. childrenOf (rewriteInOrder fromHtml options sched h2 ! p) = Some cs' \<and> a \<in> set cs'"
    if p: "p < length hk" and c: "childrenOf (hk ! p) = Some cs" "a \<in> set cs" "\<not> isTarget h a"
    for p cs a
  proof -
    from ed2 [OF p c] obtain cs2 where cs2: "childrenOf (h2 ! p) = Some cs2" "a \<in> set cs2"
      by blast
    from p len2 have "p < length h2" by simp
    with ih cs2 c(3) show ?thesis by blast
  qed
  have c: "rewriteInOrder fromHtml options sched h2 ! q = hk ! q"
    if q: "q < length hk" and na: "\<forall>d \<in> fst ` set (x # sched). q \<notin> set (dAncestors d)" for q
  proof -
    from na x have "q \<notin> set (dAncestors d)" by simp
    with fr2 q len2 have "h2 ! q = hk ! q" "q < length h2" by simp_all
    moreover from na have "\<forall>d \<in> fst ` set sched. q \<notin> set (dAncestors d)" by simp
    ultimately show ?thesis using ih by simp
  qed
  from a b c show ?case unfolding eq by blast
qed

lemma below_kept:
  assumes len: "length h \<le> length h'"
    and edges: "\<And>p cs a. p < length h \<Longrightarrow> childrenOf (h ! p) = Some cs \<Longrightarrow> a \<in> set cs \<Longrightarrow>
                  \<not> isTarget h a \<Longrightarrow> \<exists>cs'. childrenOf (h' ! p) = Some cs' \<and> a \<in> set cs'"
  shows "below h r q \<Longrightarrow> (\<forall>t. below h r t \<and> below h t q \<longrightarrow> \<not> isTarget h t) \<Longrightarrow> below h' r q"
proof (induction rule: below.induct)
  case (here r)
  with len show ?case by (auto intro: below.here)
next
  case (down r n cs c q)
  from down.hyps(1) have r: "r < length h" "h ! r = n" by (auto simp: deref_def split: if_splits)
  from down.hyps(4) have c: "below h c c" by (auto intro: below.here dest: below_top)
  with down.hyps(1,2,3) have rc: "below h r c" by (rule below.down)
  with down.prems down.hyps(4) have "\<not> isTarget h c" by blast
  from edges [OF r(1) _ down.hyps(3) this] r(2) down.hyps(2)
  obtain cs' where cs': "childrenOf (h' ! r) = Some cs'" "c \<in> set cs'" by auto
  have "\<forall>t. below h c t \<and> below h t q \<longrightarrow> \<not> isTarget h t"
    using down.prems rc by (blast intro: below_trans)
  from down.IH [OF this] have "below h' c q" .
  with cs' r(1) len show ?case
    by (auto intro: below.down [of h' r "h' ! r" cs' c] simp: deref_def)
qed

lemma rewriteInOrder_passes:
  assumes walk: "visitParents md5hex toText fuel ast [] (h, []) = Some (h1, diagrams)"
    and sub: "fst ` set sched \<subseteq> set diagrams"
    and pt: "passesThrough h ast q"
  shows "below (rewriteInOrder fromHtml options sched h1) ast q"
    and "below h q c \<Longrightarrow> deref (rewriteInOrder fromHtml options sched h1) c = deref h c"
proof -
  let ?h' = "rewriteInOrder fromHtml options sched h1"
  from visit_inv(1) [OF walk, of h] have sd: "sameDoc h h1"
    and fd: "\<forall>d \<in> set diagrams. found h d \<and> below h ast (dNode d)"
    by (auto simp: sameDoc_refl)
  from visit_parent(1) [OF walk, of h] have pa: "\<forall>d \<in> set diagrams. parented h d"
    by (simp add: sameDoc_refl)
  from sd have len: "length h1 = length h" by (simp add: sameDoc_def)
  from fd pa sub have stat: "\<forall>d \<in> fst ` set sched. found h d \<and> parented h d" by blast
  from sd have pre: "\<forall>r < length h. isPre h1 r = isPre h r" by (simp add: sameDoc_isPre)
  from len have l: "length h \<le> length h1" by simp
  note inv0 = rewriteInOrder_inv [OF stat l pre, where fromHtml = fromHtml and options = options]
  note inv = conjunct1 [OF inv0] conjunct1 [OF conjunct2 [OF inv0]] conjunct2 [OF conjunct2 [OF inv0]]
  from pt have b: "below h ast q" and clean: "\<forall>c. below h q c \<longrightarrow> \<not> isDiagramBlock h c"
    and path: "\<forall>t. below h ast t \<and> below h t q \<longrightarrow> \<not> isTarget h t"
    by (simp_all add: passesThrough_def)
  have edges: "\<exists>cs'. childrenOf (?h' ! p) = Some cs' \<and> a \<in> set cs'"
    if "p < length h" "childrenOf (h ! p) = Some cs" "a \<in> set cs" "\<not> isTarget h a" for p cs a
  proof -
    from sd that(1) have "cellRel (h ! p) (h1 ! p)" by (simp add: sameDoc_def)
    with that(2) have "childrenOf (h1 ! p) = Some cs" by (simp add: cellRel_children)
    with inv(2) that len show ?thesis by simp
  qed
  from inv(1) len have "length h \<le> length ?h'" by simp
  from below_kept [OF this edges b path] show "below ?h' ast q" .
  assume c: "below h q c"
  from c have cv: "c < length h" by (rule below_valid)
  from clean c have nm: "\<not> isMermaidCode (h ! c)"
    using cv by (auto simp: isDiagramBlock_iff deref_def)
  from sd cv have "cellRel (h ! c) (h1 ! c)" by (auto simp: sameDoc_def)
  with nm have c1: "h1 ! c = h ! c" by (auto dest: cellRel_other)
  have "c \<notin> set (dAncestors d)" if d: "d \<in> fst ` set sched" for d
  proof
    assume "c \<in> set (dAncestors d)"
    with fd d sub have "below h c (dNode d)" "isMermaidCode (h ! dNode d)" "dNode d < length h"
      by (auto simp: found_def)
    with c have "below h q (dNode d)" "isDiagramBlock h (dNode d)"
      by (auto intro: below_trans simp: isDiagramBlock_iff deref_def)
    with clean show False by blast
  qed
  with inv(3) cv len have "?h' ! c = h1 ! c" by simp
  with c1 cv len inv(1) show "deref ?h' c = deref h c" by (simp add: deref_def)
qed

text \<open>The run that the function \<open>processAll\<close> models is one of the schedules.\<close>

lemma processAll_schedule:
  "processAll run md5hex tmpDir fromHtml options ds (h, w) = (e, h', w') \<Longrightarrow>
     \<exists>sched. fst ` set sched \<subseteq> set ds \<and> h' = rewriteInOrder fromHtml options sched h"
proof (induction ds arbitrary: h w)
  case Nil
  then have "h' = rewriteInOrder fromHtml options [] h" by simp
  then show ?case by (intro exI [of _ "[]"]) simp
next
  case (Cons d ds)
  obtain res w1 where pd: "processDiagram run md5hex tmpDir fromHtml options d (h, w) = (res, w1)"
    by (cases "processDiagram run md5hex tmpDir fromHtml options d (h, w)")
  show ?case
  proof (cases res)
    case (Inl err)
    with Cons.prems pd have "h' = rewriteInOrder fromHtml options [] h" by simp
    then show ?thesis by (intro exI [of _ "[]"]) simp
  next
    case (Inr h1)
    with pd have "\<exists>entries. applyThemeAST fromHtml h (dNode d) (fromEntries entries) (dId d) (dAncestors d)
                     (svgClassNames options) = Inr h1"
      by (auto simp: processDiagram_def split: prod.splits sum.splits)
    then obtain entries where ap: "applyThemeAST fromHtml h (dNode d) (fromEntries entries) (dId d)
        (dAncestors d) (svgClassNames options) = Inr h1" by blast
    from Cons.prems pd Inr have "processAll run md5hex tmpDir fromHtml options ds (h1, w1) = (e, h', w')"
      by simp
    from Cons.IH [OF this] obtain sched where sched: "fst ` set sched \<subseteq> set ds"
      "h' = rewriteInOrder fromHtml options sched h1" by blast
    with ap have "h' = rewriteInOrder fromHtml options ((d, Some entries) # sched) h" by simp
    moreover from sched(1) have "fst ` set ((d, Some entries) # sched) \<subseteq> set (d # ds)" by auto
    ultimately show ?thesis by blast
  qed
qed

text \<open>
  C8, as amended. On a document of height at most \<open>fuel\<close> the transformer returns. The nodes
  that discovery selects are exactly the nodes of the document (at or below the root \<open>ast\<close>)
  that are \<^verbatim>\<open>code\<close> elements whose class list contains \<^verbatim>\<open>language-mermaid\<close>. A node of the
  document that has no such element at or below it, and that is not itself, nor lies below,
  a node that a rewrite may replace (a diagram block, or a \<^verbatim>\<open>pre\<close> element with a diagram
  block among its children) passes through: it is still in the document, and it is as it
  was with everything below it, same tag, same properties, same children, same text. This
  holds whatever the order in which the rewrites take place, whichever of them take place
  and whatever the renders returned, and so for the store that the transformer returns.
\<close>

theorem rehypeMermaidCLI_selection:
  "(heightBelow h ast fuel \<longrightarrow>
      (\<exists>res. rehypeMermaidCLI run md5hex tmpDir fromHtml toText given fuel ast (h, w) = Some res)) \<and>
   (visitParents md5hex toText fuel ast [] (h, []) = Some (h1, diagrams) \<longrightarrow>
      (\<forall>q. (q \<in> dNode ` set diagrams) = (below h ast q \<and> isDiagramBlock h q)) \<and>
      (\<forall>sched q. fst ` set sched \<subseteq> set diagrams \<and> passesThrough h ast q \<longrightarrow>
         below (rewriteInOrder fromHtml options sched h1) ast q \<and>
         (\<forall>c. below h q c \<longrightarrow> deref (rewriteInOrder fromHtml options sched h1) c = deref h c))) \<and>
   (rehypeMermaidCLI run md5hex tmpDir fromHtml toText given fuel ast (h, w) = Some (e, h', w') \<longrightarrow>
      (\<exists>h1 diagrams sched.
         visitParents md5hex toText fuel ast [] (h, []) = Some (h1, diagrams) \<and>
         fst ` set sched \<subseteq> set diagrams \<and>
         h' = rewriteInOrder fromHtml (resolveOptions given) sched h1) \<and>
      (\<forall>q. passesThrough h ast q \<longrightarrow>
         below h' ast q \<and> (\<forall>c. below h q c \<longrightarrow> deref h' c = deref h c)))"
proof (intro conjI impI)
  assume "heightBelow h ast fuel"
  then show "\<exists>res. rehypeMermaidCLI run md5hex tmpDir fromHtml toText given fuel ast (h, w) = Some res"
    by (rule rehypeMermaidCLI_returns)
next
  assume walk: "visitParents md5hex toText fuel ast [] (h, []) = Some (h1, diagrams)"
  from visit_inv(1) [OF walk, of h]
  have fd: "\<forall>d \<in> set diagrams. found h d \<and> below h ast (dNode d)"
    by (auto simp: sameDoc_refl)
  have sel: "(q \<in> dNode ` set diagrams) = (below h ast q \<and> isDiagramBlock h q)" for q
  proof
    assume "q \<in> dNode ` set diagrams"
    then obtain d where "d \<in> set diagrams" "q = dNode d" by blast
    with fd show "below h ast q \<and> isDiagramBlock h q"
      by (auto simp: found_def isDiagramBlock_iff deref_def)
  next
    assume a: "below h ast q \<and> isDiagramBlock h q"
    then have "isMermaidCode (h ! q)"
      by (auto simp: isDiagramBlock_iff deref_def split: if_splits)
    from visit_complete(1) [OF walk _ _ this] a show "q \<in> dNode ` set diagrams"
      by (simp add: sameDoc_refl)
  qed
  show "\<forall>q. (q \<in> dNode ` set diagrams) = (below h ast q \<and> isDiagramBlock h q)"
    by (intro allI sel)
  show "\<forall>sched q. fst ` set sched \<subseteq> set diagrams \<and> passesThrough h ast q \<longrightarrow>
         below (rewriteInOrder fromHtml options sched h1) ast q \<and>
         (\<forall>c. below h q c \<longrightarrow> deref (rewriteInOrder fromHtml options sched h1) c = deref h c)"
  proof (intro allI impI conjI)
    fix sched :: "(diagramEntry \<times> (theme \<times> string) list option) list" and q
    assume a: "fst ` set sched \<subseteq> set diagrams \<and> passesThrough h ast q"
    then have sub: "fst ` set sched \<subseteq> set diagrams" and pt: "passesThrough h ast q" by simp_all
    show "below (rewriteInOrder fromHtml options sched h1) ast q"
      by (rule rewriteInOrder_passes(1) [OF walk sub pt])
    fix c assume "below h q c"
    then show "deref (rewriteInOrder fromHtml options sched h1) c = deref h c"
      by (rule rewriteInOrder_passes(2) [OF walk sub pt])
  qed
next
  assume run: "rehypeMermaidCLI run md5hex tmpDir fromHtml toText given fuel ast (h, w) = Some (e, h', w')"
  then obtain h1 diagrams where
    walk: "visitParents md5hex toText fuel ast [] (h, []) = Some (h1, diagrams)"
    and rest: "processAll run md5hex tmpDir fromHtml (resolveOptions given) diagrams (h1, w) = (e, h', w')"
    by (auto simp: rehypeMermaidCLI_def Let_def split: option.splits)
  from processAll_schedule [OF rest] obtain sched where
    sched: "fst ` set sched \<subseteq> set diagrams"
      "h' = rewriteInOrder fromHtml (resolveOptions given) sched h1"
    by blast
  show "\<exists>h1 diagrams sched.
         visitParents md5hex toText fuel ast [] (h, []) = Some (h1, diagrams) \<and>
         fst ` set sched \<subseteq> set diagrams \<and>
         h' = rewriteInOrder fromHtml (resolveOptions given) sched h1"
    by (rule exI [where x = h1], rule exI [where x = diagrams], rule exI [where x = sched])
      (rule conjI [OF walk conjI [OF sched]])
  show "\<forall>q. passesThrough h ast q \<longrightarrow>
         below h' ast q \<and> (\<forall>c. below h q c \<longrightarrow> deref h' c = deref h c)"
  proof (intro allI impI conjI)
    fix q assume pt: "passesThrough h ast q"
    from rewriteInOrder_passes(1) [OF walk sched(1) pt, of fromHtml "resolveOptions given"] sched(2)
    show "below h' ast q" by simp
    fix c assume "below h q c"
    from rewriteInOrder_passes(2) [OF walk sched(1) pt this, of fromHtml "resolveOptions given"] sched(2)
    show "deref h' c = deref h c" by simp
  qed
qed

text \<open>
  The claim of C8 as it was stated fails in two ways. A code block that does not satisfy the
  predicate and has a diagram block directly inside it (\<open>docN\<close>) gets the wrapper among its
  children, and so loses its original content. A code block that does not satisfy the
  predicate and shares a \<^verbatim>\<open>pre\<close> with a diagram block (\<open>docS\<close>) is unchanged but leaves the
  document, because the \<^verbatim>\<open>pre\<close> is replaced with all its children.
\<close>

lemma visitParents_docN:
  "visitParents mdw toTextW 5 0 [] (docN, [])
     = Some ([Root [1], Element ''pre'' [] [2],
           Element ''code'' [(''className'', PList [''language-js''])] [3],
           Element ''code'' [(''className'', PList [''language-mermaid'']), (''id'', PStr ''mermaid-536b8b06'')] [4],
           Text ''graph TD; A-->B;''],
          [\<lparr>dDiagram = ''graph TD; A-->B;'', dId = ''mermaid-536b8b06'', dNode = 3, dAncestors = [0, 1, 2]\<rparr>])"
  by code_simp

lemma rehypeMermaidCLI_docN:
  "map_option (fst \<circ> snd) (rehypeMermaidCLI okRun mdw ''/tmp'' fromHtmlW toTextW None 5 0 (docN, emptyWorld))
     = Some docN_rewritten"
  by (simp add: pipeline_defs visitParents_docN docN_rewritten_def)

lemma not_isDiagramBlock_docN: "\<not> isDiagramBlock docN 2"
  by (simp add: isDiagramBlock_def deref_def docN_def)

lemma visitParents_docS:
  "visitParents mdw toTextW 4 0 [] (docS, [])
     = Some ([Root [1], Element ''pre'' [] [2, 4],
           Element ''code'' [(''className'', PList [''language-js''])] [3],
           Text ''console.log(1);'',
           Element ''code'' [(''className'', PList [''language-mermaid'']), (''id'', PStr ''mermaid-536b8b06'')] [5],
           Text ''graph TD; A-->B;''],
          [\<lparr>dDiagram = ''graph TD; A-->B;'', dId = ''mermaid-536b8b06'', dNode = 4, dAncestors = [0, 1]\<rparr>])"
  by code_simp

lemma rehypeMermaidCLI_docS:
  "map_option (fst \<circ> snd) (rehypeMermaidCLI okRun mdw ''/tmp'' fromHtmlW toTextW None 4 0 (docS, emptyWorld))
     = Some docS_rewritten"
  by (simp add: pipeline_defs visitParents_docS docS_rewritten_def)

lemma below_docS: "below docS 0 2"
proof -
  have "heightBelow docS 0 4" by code_simp
  moreover have "2 \<in> set (nodesBelow docS 4 0)" by code_simp
  ultimately show ?thesis by (simp only: below_code)
qed

lemma not_below_docS_rewritten: "\<not> below docS_rewritten 0 2"
proof -
  have "heightBelow docS_rewritten 0 5" by code_simp
  moreover have "2 \<notin> set (nodesBelow docS_rewritten 5 0)" by code_simp
  ultimately show ?thesis by (simp only: below_code not_False_eq_True)
qed

theorem rehypeMermaidCLI_selection_counterexample:
  "deref docN 2 = Some (Element ''code'' [(''className'', PList [''language-js''])] [3])
   \<and> \<not> isDiagramBlock docN 2
   \<and> map_option (fst \<circ> snd)
        (rehypeMermaidCLI okRun mdw ''/tmp'' fromHtmlW toTextW None 5 0 (docN, emptyWorld))
       = Some docN_rewritten
   \<and> deref docN_rewritten 2 = Some (Element ''code'' [(''className'', PList [''language-js''])] [7])
   \<and> deref docN_rewritten 2 \<noteq> deref docN 2
   \<and> deref docS 2 = Some (Element ''code'' [(''className'', PList [''language-js''])] [3])
   \<and> \<not> isDiagramBlock docS 2
   \<and> below docS 0 2
   \<and> map_option (fst \<circ> snd)
        (rehypeMermaidCLI okRun mdw ''/tmp'' fromHtmlW toTextW None 4 0 (docS, emptyWorld))
       = Some docS_rewritten
   \<and> \<not> below docS_rewritten 0 2"
proof -
  have a: "deref docN 2 = Some (Element ''code'' [(''className'', PList [''language-js''])] [3])
      \<and> deref docN_rewritten 2 = Some (Element ''code'' [(''className'', PList [''language-js''])] [7])
      \<and> deref docN_rewritten 2 \<noteq> deref docN 2"
    by (simp add: deref_def docN_def docN_rewritten_def)
  have b: "deref docS 2 = Some (Element ''code'' [(''className'', PList [''language-js''])] [3])
      \<and> \<not> isDiagramBlock docS 2"
    by (simp add: isDiagramBlock_def deref_def docS_def)
  from a b rehypeMermaidCLI_docN not_isDiagramBlock_docN rehypeMermaidCLI_docS below_docS
    not_below_docS_rewritten
  show ?thesis by simp
qed

text \<open>Neither of the two blocks passes through in the sense of the amended statement.\<close>

lemma not_passesThrough_docS: "\<not> passesThrough docS 0 2"
proof -
  have "below docS 0 1" "below docS 1 2"
  proof -
    have h: "heightBelow docS 0 4" "heightBelow docS 1 4" by code_simp+
    have "1 \<in> set (nodesBelow docS 4 0)" "2 \<in> set (nodesBelow docS 4 1)" by code_simp+
    with h show "below docS 0 1" "below docS 1 2" by (simp_all only: below_code)
  qed
  moreover have "isTarget docS 1"
    by (simp add: isTarget_code isPre_def deref_def docS_def isMermaidCode_def)
  ultimately show ?thesis by (auto simp: passesThrough_def)
qed

lemma not_passesThrough_docN: "\<not> passesThrough docN 0 2"
proof -
  have "below docN 2 3"
  proof -
    have h: "heightBelow docN 2 4" by code_simp
    have "3 \<in> set (nodesBelow docN 4 2)" by code_simp
    with h show ?thesis by (simp only: below_code)
  qed
  moreover have "isDiagramBlock docN 3"
    by (simp add: isDiagramBlock_def deref_def docN_def)
  ultimately show ?thesis by (auto simp: passesThrough_def)
qed

text \<open>
  In \<open>docJ\<close> the code block of the other language has a \<^verbatim>\<open>pre\<close> of its own: it passes
  through.
\<close>

lemma visitParents_docJ:
  "visitParents mdw toTextW 4 0 [] (docJ, [])
     = Some ([Root [1, 4], Element ''pre'' [] [2],
           Element ''code'' [(''className'', PList [''language-javascript''])] [3],
           Text ''console.log(1);'',
           Element ''pre'' [] [5],
           Element ''code'' [(''className'', PList [''language-mermaid'']), (''id'', PStr ''mermaid-536b8b06'')] [6],
           Text ''graph TD; A-->B;''],
          [\<lparr>dDiagram = ''graph TD; A-->B;'', dId = ''mermaid-536b8b06'', dNode = 5, dAncestors = [0, 4]\<rparr>])"
  by code_simp

lemma rehypeMermaidCLI_docJ:
  "map_option (fst \<circ> snd) (rehypeMermaidCLI okRun mdw ''/tmp'' fromHtmlW toTextW None 4 0 (docJ, emptyWorld))
     = Some docJ_rewritten"
  by (simp add: pipeline_defs visitParents_docJ docJ_rewritten_def)

lemma passesThrough_docJ: "passesThrough docJ 0 2"
proof -
  have height: "heightBelow docJ 0 4" by code_simp
  have nb: "nodesBelow docJ 4 0 = [0, 1, 2, 3, 4, 5, 6]" "nodesBelow docJ 4 1 = [1, 2, 3]"
    "nodesBelow docJ 4 2 = [2, 3]" "nodesBelow docJ 4 3 = [3]" "nodesBelow docJ 4 4 = [4, 5, 6]"
    "nodesBelow docJ 4 5 = [5, 6]" "nodesBelow docJ 4 6 = [6]"
    by code_simp+
  have nt: "\<not> isTarget docJ 0" "\<not> isTarget docJ 1" "\<not> isTarget docJ 2"
    by (simp_all add: isTarget_code isPre_def deref_def docJ_def isMermaidCode_def)
  have nd: "\<not> isDiagramBlock docJ 2" "\<not> isDiagramBlock docJ 3"
    by (simp_all add: isDiagramBlock_def deref_def docJ_def)
  show ?thesis
    unfolding passesThrough_code [OF height] using nt nd by (simp add: nb)
qed

lemma rewriteInOrder_docJ:
  "rewriteInOrder fromHtmlW defaultOptions [(docJ_entry, Some [(Default, ''<svg></svg>'')])] docJ_found
     = docJ_rewritten"
  by (simp add: docJ_entry_def docJ_found_def docJ_rewritten_def defaultOptions_def fromEntries_def
        rewrite_defs)

theorem rehypeMermaidCLI_selection_witness:
  "heightBelow docJ 0 4
   \<and> (\<exists>res. rehypeMermaidCLI okRun mdw ''/tmp'' fromHtmlW toTextW None 4 0 (docJ, emptyWorld) = Some res)
   \<and> visitParents mdw toTextW 4 0 [] (docJ, []) = Some (docJ_found, [docJ_entry])
   \<and> below docJ 0 5 \<and> isDiagramBlock docJ 5
   \<and> \<not> isDiagramBlock docJ 2
   \<and> passesThrough docJ 0 2
   \<and> fst ` set [(docJ_entry, Some [(Default, ''<svg></svg>'')])] \<subseteq> set [docJ_entry]
   \<and> rewriteInOrder fromHtmlW defaultOptions [(docJ_entry, Some [(Default, ''<svg></svg>'')])] docJ_found
       = docJ_rewritten
   \<and> map_option (fst \<circ> snd)
        (rehypeMermaidCLI okRun mdw ''/tmp'' fromHtmlW toTextW None 4 0 (docJ, emptyWorld))
       = Some docJ_rewritten
   \<and> below docJ_rewritten 0 2
   \<and> deref docJ 2 = Some (Element ''code'' [(''className'', PList [''language-javascript''])] [3])
   \<and> deref docJ_rewritten 2 = deref docJ 2
   \<and> deref docJ_rewritten 3 = deref docJ 3"
proof -
  let ?r = "rehypeMermaidCLI okRun mdw ''/tmp'' fromHtmlW toTextW None 4 0 (docJ, emptyWorld)"
  let ?sched = "[(docJ_entry, Some [(Default, ''<svg></svg>'')])]"
  from rehypeMermaidCLI_docJ obtain e w' where r: "?r = Some (e, docJ_rewritten, w')"
    by (cases ?r) auto
  note inst = rehypeMermaidCLI_selection [where h = docJ and ast = 0 and fuel = 4 and run = okRun
      and md5hex = mdw and tmpDir = "''/tmp''" and fromHtml = fromHtmlW and toText = toTextW
      and given = None and w = emptyWorld and ?h1.0 = docJ_found and diagrams = "[docJ_entry]"
      and options = defaultOptions and e = e and h' = docJ_rewritten and w' = w']
  note c1 = conjunct1 [OF inst]
  note c2 = conjunct1 [OF conjunct2 [OF inst]]
  note c3 = conjunct2 [OF conjunct2 [OF inst]]
  have height: "heightBelow docJ 0 4" by code_simp
  from c1 height have ret: "\<exists>res. ?r = Some res" by (rule mp)
  have walk: "visitParents mdw toTextW 4 0 [] (docJ, []) = Some (docJ_found, [docJ_entry])"
    by (simp add: visitParents_docJ docJ_found_def docJ_entry_def)
  note sel = conjunct1 [OF mp [OF c2 walk]]
  note any = conjunct2 [OF mp [OF c2 walk]]
  note seq = conjunct2 [OF mp [OF c3 r]]
  from sel [rule_format, of 5] have s: "below docJ 0 5 \<and> isDiagramBlock docJ 5"
    by (simp add: docJ_entry_def)
  have n2: "\<not> isDiagramBlock docJ 2"
    by (simp add: isDiagramBlock_def deref_def docJ_def)
  note pt = passesThrough_docJ
  have sub: "fst ` set ?sched \<subseteq> set [docJ_entry]" by simp
  from any [rule_format, of ?sched 2] sub pt
  have "below (rewriteInOrder fromHtmlW defaultOptions ?sched docJ_found) 0 2" by blast
  then have b1: "below docJ_rewritten 0 2" by (simp only: rewriteInOrder_docJ)
  from seq [rule_format, OF pt] have b2: "below docJ_rewritten 0 2"
    and fr: "\<forall>c. below docJ 2 c \<longrightarrow> deref docJ_rewritten c = deref docJ c"
    by blast+
  have "below docJ 2 2" "below docJ 2 3"
  proof -
    have h: "heightBelow docJ 2 4" by code_simp
    have "2 \<in> set (nodesBelow docJ 4 2)" "3 \<in> set (nodesBelow docJ 4 2)" by code_simp+
    with h show "below docJ 2 2" "below docJ 2 3" by (simp_all only: below_code)
  qed
  with fr have f: "deref docJ_rewritten 2 = deref docJ 2" "deref docJ_rewritten 3 = deref docJ 3"
    by blast+
  have d2: "deref docJ 2 = Some (Element ''code'' [(''className'', PList [''language-javascript''])] [3])"
    by (simp add: deref_def docJ_def)
  from height ret walk s n2 pt sub rewriteInOrder_docJ rehypeMermaidCLI_docJ b2 d2 f
  show ?thesis by (intro conjI) (simp_all only: not_False_eq_True)
qed

end
